theory Spec2Isabelle
  imports Complex_Main "HOL-Library.Word"
begin

section \<open>Protocol descriptors and command encoding (Modules/Protocols.py)\<close>

type_synonym byte = "8 word"
type_synonym bytes = "byte list"

text \<open>
  The two Python exceptions the encoding path can raise: \<open>int(b"")\<close> raises
  \<open>ValueError\<close>, and \<open>int.to_bytes(2, ...)\<close> raises \<open>OverflowError\<close> on a
  negative value or on one that does not fit in two bytes.
\<close>

datatype py_error = ValueError | OverflowError

text \<open>
  Modelled from the spec: \<open>Definitions.SnifferCommands\<close> and
  \<open>Definitions.PacketCommand\<close> are not among the sources. The spec describes a
  command as an opcode plus an optional payload byte sequence; the opcodes are kept
  symbolic (the enum members that \<open>Protocols.py\<close> refers to), and
  \<open>PacketCommand(op, data)\<close> is the constructor applied to its arguments, with the
  payload empty when the call passes none.
\<close>

datatype SnifferCommands =
  CMD_PING | CMD_START | CMD_STOP | CMD_CFG_FREQUENCY | CMD_CFG_PHY
  | CMD_CFG_BLE_INITIATOR_ADDRESS

datatype PacketCommand = PacketCommand (opcode: SnifferCommands) (payload: bytes)

text \<open>
  A frequency is a Python \<open>int\<close> or \<open>float\<close>. The code never does floating-point
  arithmetic on it (it only truncates it with \<open>int()\<close>), so it is modelled by the
  rational number the value denotes.
\<close>

record Protocol =
  phy_index :: bytes
  name :: string
  phy_label :: string
  base_frequency :: rat
  spacing :: rat
  channel_range :: "(int \<times> rat) list"
  pcap_header :: int
  common_names :: "string list"
  profile :: string

definition find_by_name :: "Protocol \<Rightarrow> string \<Rightarrow> Protocol option" where
  "find_by_name self nm = (if nm \<in> set (common_names self) then Some self else None)"

text \<open>
  \<open>get_channel_bytes\<close> returns the frequency of the first pair whose index matches, and
  the empty bytes object \<open>b""\<close> when the loop ends without a match.
\<close>

datatype channel_value = Freq rat | EmptyBytes

fun get_channel_bytes_loop :: "(int \<times> rat) list \<Rightarrow> int \<Rightarrow> channel_value" where
  "get_channel_bytes_loop [] channel_index = EmptyBytes"
| "get_channel_bytes_loop (c # cs) channel_index =
     (if fst c = channel_index then Freq (snd c) else get_channel_bytes_loop cs channel_index)"

definition get_channel_bytes :: "Protocol \<Rightarrow> int \<Rightarrow> channel_value" where
  "get_channel_bytes self channel_index =
     get_channel_bytes_loop (channel_range self) channel_index"

definition list_channel_range :: "Protocol \<Rightarrow> int list" where
  "list_channel_range self = map fst (channel_range self)"

text \<open>
  Python's \<open>int(x)\<close>: truncation towards zero on a number, \<open>ValueError\<close> on the empty
  bytes literal.
\<close>

definition trunc_rat :: "rat \<Rightarrow> int" where
  "trunc_rat x = (if 0 \<le> x then \<lfloor>x\<rfloor> else \<lceil>x\<rceil>)"

fun py_int :: "channel_value \<Rightarrow> py_error + int" where
  "py_int (Freq x) = Inr (trunc_rat x)"
| "py_int EmptyBytes = Inl ValueError"

text \<open>\<open>n.to_bytes(len, byteorder="little")\<close> for an unsigned value.\<close>

fun le_bytes :: "nat \<Rightarrow> int \<Rightarrow> bytes" where
  "le_bytes 0 n = []"
| "le_bytes (Suc k) n = word_of_int n # le_bytes k (n div 256)"

definition to_bytes :: "int \<Rightarrow> nat \<Rightarrow> py_error + bytes" where
  "to_bytes n len =
     (if n < 0 \<or> 256 ^ len \<le> n then Inl OverflowError else Inr (le_bytes len n))"

definition CONST_FRECUENCY :: int where
  "CONST_FRECUENCY = 65536"

text \<open>
  \<open>__calculate_fractional_frequency\<close>: the source subtracts \<open>integer_value\<close> from
  itself before scaling.
\<close>

definition calculate_fractional_frequency :: "channel_value \<Rightarrow> py_error + (int \<times> int)" where
  "calculate_fractional_frequency frequency =
     (case py_int frequency of
        Inl e \<Rightarrow> Inl e
      | Inr integer_value \<Rightarrow>
          Inr (integer_value, (integer_value - integer_value) * CONST_FRECUENCY))"

definition calculate_frequency :: "channel_value \<Rightarrow> py_error + bytes" where
  "calculate_frequency frequency =
     (case calculate_fractional_frequency frequency of
        Inl e \<Rightarrow> Inl e
      | Inr (frequency_int, frequency_fract) \<Rightarrow>
          (case to_bytes frequency_int 2 of
             Inl e \<Rightarrow> Inl e
           | Inr frequency_int_bytes \<Rightarrow>
               (case to_bytes frequency_fract 2 of
                  Inl e \<Rightarrow> Inl e
                | Inr frequency_fract_bytes \<Rightarrow>
                    Inr (frequency_int_bytes @ frequency_fract_bytes))))"

definition command_start :: "Protocol \<Rightarrow> PacketCommand" where
  "command_start self = PacketCommand CMD_START []"

definition command_stop :: "Protocol \<Rightarrow> PacketCommand" where
  "command_stop self = PacketCommand CMD_STOP []"

definition command_ping :: "Protocol \<Rightarrow> PacketCommand" where
  "command_ping self = PacketCommand CMD_PING []"

definition command_cfg_phy :: "Protocol \<Rightarrow> PacketCommand" where
  "command_cfg_phy self = PacketCommand CMD_CFG_PHY (phy_index self)"

definition command_cfg_frequency :: "Protocol \<Rightarrow> int \<Rightarrow> py_error + PacketCommand" where
  "command_cfg_frequency self channel =
     (case calculate_frequency (get_channel_bytes self channel) of
        Inl e \<Rightarrow> Inl e
      | Inr get_frequency \<Rightarrow> Inr (PacketCommand CMD_CFG_FREQUENCY get_frequency))"

text \<open>
  \<open>command_startup\<close> builds a list literal; its elements are evaluated left to right and
  the only one that can raise is \<open>command_cfg_frequency\<close>, whose exception leaves the
  call without a list.
\<close>

definition command_startup :: "Protocol \<Rightarrow> int \<Rightarrow> py_error + PacketCommand list" where
  "command_startup self channel =
     (case command_cfg_frequency self channel of
        Inl e \<Rightarrow> Inl e
      | Inr cfg_frequency \<Rightarrow>
          Inr [command_ping self, command_stop self, command_cfg_phy self,
               cfg_frequency, command_start self])"

subsection \<open>The registered descriptors\<close>

definition PROTOCOL_BLE :: Protocol where
  "PROTOCOL_BLE =
     \<lparr>phy_index = [0x13], name = ''Bluetooth LE'', phy_label = ''2402 MHz - Freq Band'',
      base_frequency = 2402, spacing = 2,
      channel_range = [(37, 2402), (38, 2426), (39, 2480)],
      pcap_header = 147, common_names = [''ble'', ''bluetooth'', ''bluetoothle''],
      profile = ''Default''\<rparr>"

definition PROTOCOL_ZIGBEE :: Protocol where
  "PROTOCOL_ZIGBEE =
     \<lparr>phy_index = [0x12], name = ''Zigbee'', phy_label = ''2405 MHz - Freq Band'',
      base_frequency = 2405, spacing = 5,
      channel_range = map (\<lambda>channel. (channel, 2405 + of_int (5 * (channel - 11)))) [11..26],
      pcap_header = 147, common_names = [''zigbee'', ''zig'', ''zb''],
      profile = ''Zigbee''\<rparr>"

definition PROTOCOL_THREAD :: Protocol where
  "PROTOCOL_THREAD =
     \<lparr>phy_index = [0x12], name = ''Thread'', phy_label = ''2405 MHz - Freq Band'',
      base_frequency = 2405, spacing = 5,
      channel_range = map (\<lambda>channel. (channel, 2405 + of_int (5 * (channel - 11)))) [11..26],
      pcap_header = 147, common_names = [''thread''],
      profile = ''Thread''\<rparr>"

definition PROTOCOL_LORA :: Protocol where
  "PROTOCOL_LORA =
     \<lparr>phy_index = [0x14], name = ''LoRa'', phy_label = ''915 MHz - Freq Band'',
      base_frequency = 915, spacing = 125,
      channel_range = [(0, 433), (1, 434), (2, 435)],
      pcap_header = 148, common_names = [],
      profile = ''Default''\<rparr>"

text \<open>
  Modelled from the spec: \<open>Definitions.BaseEnum\<close> is not among the sources. The
  registry is a fixed table iterated in registration order; \<open>PROTOCOLSLIST\<close> is used by
  the code as a Python enumeration, each member carrying its identifier (\<open>.name\<close>) and
  its descriptor (\<open>.value\<close>).
\<close>

datatype enum_member = EnumMember (member_name: string) (member_value: Protocol)

definition PROTOCOLSLIST :: "enum_member list" where
  "PROTOCOLSLIST =
     [EnumMember ''PROTOCOL_BLE'' PROTOCOL_BLE,
      EnumMember ''PROTOCOL_ZIGBEE'' PROTOCOL_ZIGBEE,
      EnumMember ''PROTOCOL_THREAD'' PROTOCOL_THREAD,
      EnumMember ''PROTOCOL_LORA'' PROTOCOL_LORA]"

text \<open>
  \<open>get_protocol_by_name\<close> returns the enumeration member when the member's identifier
  matches, and the descriptor itself when one of the descriptor's common names matches.
\<close>

datatype resolved = ByMember enum_member | ByAlias Protocol

fun get_protocol_by_name_loop :: "enum_member list \<Rightarrow> string \<Rightarrow> resolved option" where
  "get_protocol_by_name_loop [] nm = None"
| "get_protocol_by_name_loop (protocol # rest) nm =
     (if member_name protocol = nm then Some (ByMember protocol)
      else (case find_by_name (member_value protocol) nm of
              Some get_protocol \<Rightarrow> Some (ByAlias get_protocol)
            | None \<Rightarrow> get_protocol_by_name_loop rest nm))"

definition get_protocol_by_name :: "string \<Rightarrow> resolved option" where
  "get_protocol_by_name nm = get_protocol_by_name_loop PROTOCOLSLIST nm"

text \<open>
  The payload the specification asks for: the integer part of the frequency and the
  fractional part in units of 1/65536 MHz, each as an unsigned 16-bit little-endian field.
\<close>

definition spec_frequency_payload :: "rat \<Rightarrow> py_error + bytes" where
  "spec_frequency_payload f =
     (case to_bytes \<lfloor>f\<rfloor> 2 of
        Inl e \<Rightarrow> Inl e
      | Inr int_bytes \<Rightarrow>
          (case to_bytes (round ((f - of_int \<lfloor>f\<rfloor>) * 65536)) 2 of
             Inl e \<Rightarrow> Inl e
           | Inr fract_bytes \<Rightarrow> Inr (int_bytes @ fract_bytes)))"

section \<open>The streaming pipe (Modules/Fifo.py)\<close>

subsection \<open>The object\<close>

text \<open>
  The fields that \<open>Fifo.__init__\<close> sets. \<open>fifo_worker\<close> is \<open>None\<close> or the open pipe;
  \<open>fifo_packet\<close> is the pending-frame slot and \<open>last_packet\<close> the frame recorded by the
  last completed write. The lock and the logger are never used by the methods modelled
  here, and the file name fields of the two subclasses play no part in them.
\<close>

datatype pipe = Pipe

record Fifo =
  fifo_worker :: "pipe option"
  fifo_recv_cancel :: bool
  fifo_need_header :: bool
  fifo_data :: "bytes list"
  fifo_packet :: "bytes option"
  last_packet :: "bytes option"
  linktype :: int

text \<open>
  \<open>add_data\<close> and \<open>set_linktype\<close> (the same in both subclasses) are plain
  assignments: no lock is taken and nothing is waited for.
\<close>

definition add_data :: "bytes \<Rightarrow> 'a Fifo_scheme \<Rightarrow> 'a Fifo_scheme" where
  "add_data d self = self\<lparr>fifo_packet := Some d\<rparr>"

definition set_linktype :: "int \<Rightarrow> 'a Fifo_scheme \<Rightarrow> 'a Fifo_scheme" where
  "set_linktype lt self = self\<lparr>linktype := lt\<rparr>"

text \<open>Python's truth value of the slot: \<open>None\<close> and the empty bytes object are false.\<close>

fun truthy :: "bytes option \<Rightarrow> bool" where
  "truthy None = False"
| "truthy (Some d) = (d \<noteq> [])"

subsection \<open>Threads, the environment and the effects\<close>

text \<open>
  Three threads touch the object: the worker thread executing \<open>run\<close>, a producer calling
  \<open>add_data\<close>, and a thread calling \<open>stop\<close>. Every statement of \<open>run\<close> and \<open>stop\<close>
  reads the shared slot at most once, so an execution is an interleaving of whole
  statements: a schedule lists which thread moves next. The operating system answers each
  input/output call: it returns, or it raises (for a write or a flush of the path-based
  pipe that is \<open>BrokenPipeError\<close>, for the message pipe \<open>pywintypes.error\<close>, for
  opening the pipe \<open>OSError\<close>). The model starts when the worker thread has been
  started and is about to execute the first statement of \<open>run\<close>.

  The effects of an execution are logged in the order in which they happen. A write or a
  flush is logged when the call returns; a call that raises logs nothing.
\<close>

text \<open>
  Modelled from the spec: \<open>Pcap.get_global_header\<close> and the constant
  \<open>LINKTYPE_IEEE802_15_4_NOFCS\<close> are not among the sources. The global header is
  the fixed capture-format header for a link-type code; a write of it is logged as
  \<open>WriteHeader\<close> with the link type that the call passes (\<open>None\<close> when it passes
  none), and the link type an object starts with is a parameter of the initial state.
  A frame is written as the bytes that were submitted.
\<close>

datatype io = Ok | Fails

datatype rm = Removed | FileNotFound | OtherOSError

datatype event = Worker io | AddData bytes | Stopper rm

datatype effect =
    WriteHeader "int option"
  | WritePacket bytes
  | Flush
  | Sleep
  | Print
  | LogError
  | LogInfo
  | Joined
  | Unlink

fun is_pipe_io :: "effect \<Rightarrow> bool" where
  "is_pipe_io (WriteHeader lt) = True"
| "is_pipe_io (WritePacket d) = True"
| "is_pipe_io Flush = True"
| "is_pipe_io e = False"

text \<open>
  A system state is the object together with the statement each of the two threads is
  at (named by its source line) and the log of effects.
\<close>

record ('r, 's) system = Fifo +
  run_at :: 'r
  stop_at :: 's
  effects :: "effect list"

definition emit :: "effect \<Rightarrow> ('r, 's) system \<Rightarrow> ('r, 's) system" where
  "emit e c = c\<lparr>effects := effects c @ [e]\<rparr>"

subsection \<open>FifoLinux\<close>

text \<open>
  \<open>FifoLinux.run\<close>, one statement per step, with the statements of \<open>open\<close> and
  \<open>create\<close> (lines 54, 49 and 57) in the place where \<open>run\<close> calls them. At line 54
  the answer \<open>Ok\<close> of the operating system stands for \<open>os.path.exists\<close> returning
  \<open>True\<close> and \<open>Fails\<close> for \<open>False\<close>. \<open>os.mkfifo\<close> and the built-in \<open>open\<close>
  each return or raise \<open>OSError\<close>, which is caught and printed; only a successful
  \<open>open\<close> sets \<open>fifo_worker\<close>. \<open>RunReturned\<close>: the loop has ended and
  \<open>run\<close> returned. \<open>RunDied\<close>: an exception other than \<open>BrokenPipeError\<close> left
  \<open>run\<close> (a method call on \<open>None\<close> when the pipe was never opened, or a write of
  \<open>None\<close>).
\<close>

datatype linux_pc =
  L63 | L64 | L54 | L49 | L57 | L66 | L68 | L69 | L70 | L71 | L72 | L73 | L75 | L76 | L77
  | L78 | L81 | RunReturned | RunDied

datatype linux_stop_pc =
  S86 | S87 | S88 | S89 | S91 | S93 | S94 | StopReturned | StopExit int | StopRaised

type_synonym linux = "(linux_pc, linux_stop_pc) system"

definition FifoLinux_run_step :: "io \<Rightarrow> linux \<Rightarrow> linux" where
  "FifoLinux_run_step r c =
     (case run_at c of
        \<comment> \<open>\<open>self.fifo_recv_cancel = False\<close>\<close>
        L63 \<Rightarrow> c\<lparr>fifo_recv_cancel := False, run_at := L64\<rparr>
        \<comment> \<open>\<open>if self.fifo_worker is None: self.open()\<close>\<close>
      | L64 \<Rightarrow> (if fifo_worker c = None then c\<lparr>run_at := L54\<rparr> else c\<lparr>run_at := L66\<rparr>)
        \<comment> \<open>\<open>if os.path.exists(self.fifo_path) == False: self.create()\<close>\<close>
      | L54 \<Rightarrow> (case r of Ok \<Rightarrow> c\<lparr>run_at := L57\<rparr> | Fails \<Rightarrow> c\<lparr>run_at := L49\<rparr>)
        \<comment> \<open>\<open>try: os.mkfifo(self.fifo_path) except OSError as e: print(e)\<close>\<close>
      | L49 \<Rightarrow> (case r of Ok \<Rightarrow> c\<lparr>run_at := L57\<rparr> | Fails \<Rightarrow> (emit Print c)\<lparr>run_at := L57\<rparr>)
        \<comment> \<open>\<open>try: self.fifo_worker = open(self.fifo_path, 'ab') except OSError as e: print(e)\<close>\<close>
      | L57 \<Rightarrow> (case r of
                   Ok \<Rightarrow> c\<lparr>fifo_worker := Some Pipe, run_at := L66\<rparr>
                 | Fails \<Rightarrow> (emit Print c)\<lparr>run_at := L66\<rparr>)
        \<comment> \<open>\<open>while not self.fifo_recv_cancel:\<close>\<close>
      | L66 \<Rightarrow> (if fifo_recv_cancel c then c\<lparr>run_at := RunReturned\<rparr> else c\<lparr>run_at := L68\<rparr>)
        \<comment> \<open>\<open>if self.fifo_packet:\<close>\<close>
      | L68 \<Rightarrow> (if truthy (fifo_packet c) then c\<lparr>run_at := L69\<rparr> else c\<lparr>run_at := L81\<rparr>)
        \<comment> \<open>\<open>if self.fifo_packet != self.last_packet:\<close>\<close>
      | L69 \<Rightarrow> (if fifo_packet c \<noteq> last_packet c then c\<lparr>run_at := L70\<rparr>
                 else c\<lparr>run_at := L66\<rparr>)
        \<comment> \<open>\<open>if self.fifo_need_header:\<close>\<close>
      | L70 \<Rightarrow> (if fifo_need_header c then c\<lparr>run_at := L71\<rparr> else c\<lparr>run_at := L75\<rparr>)
        \<comment> \<open>\<open>self.fifo_worker.write(Pcap.get_global_header(self.linktype))\<close>\<close>
      | L71 \<Rightarrow> (case fifo_worker c of
                   None \<Rightarrow> c\<lparr>run_at := RunDied\<rparr>
                 | Some p \<Rightarrow>
                     (case r of
                        Ok \<Rightarrow> (emit (WriteHeader (Some (linktype c))) c)\<lparr>run_at := L72\<rparr>
                      | Fails \<Rightarrow> c\<lparr>run_at := L66\<rparr>))
        \<comment> \<open>\<open>self.fifo_worker.flush()\<close>\<close>
      | L72 \<Rightarrow> (case r of
                   Ok \<Rightarrow> (emit Flush c)\<lparr>run_at := L73\<rparr>
                 | Fails \<Rightarrow> c\<lparr>run_at := L66\<rparr>)
        \<comment> \<open>\<open>self.fifo_need_header = False\<close>\<close>
      | L73 \<Rightarrow> c\<lparr>fifo_need_header := False, run_at := L75\<rparr>
        \<comment> \<open>\<open>self.fifo_worker.write(self.fifo_packet)\<close>\<close>
      | L75 \<Rightarrow> (case fifo_worker c of
                   None \<Rightarrow> c\<lparr>run_at := RunDied\<rparr>
                 | Some p \<Rightarrow>
                     (case fifo_packet c of
                        None \<Rightarrow> c\<lparr>run_at := RunDied\<rparr>
                      | Some d \<Rightarrow>
                          (case r of
                             Ok \<Rightarrow> (emit (WritePacket d) c)\<lparr>run_at := L76\<rparr>
                           | Fails \<Rightarrow> c\<lparr>run_at := L66\<rparr>)))
        \<comment> \<open>\<open>self.fifo_worker.flush()\<close>\<close>
      | L76 \<Rightarrow> (case r of
                   Ok \<Rightarrow> (emit Flush c)\<lparr>run_at := L77\<rparr>
                 | Fails \<Rightarrow> c\<lparr>run_at := L66\<rparr>)
        \<comment> \<open>\<open>self.last_packet = self.fifo_packet\<close>\<close>
      | L77 \<Rightarrow> c\<lparr>last_packet := fifo_packet c, run_at := L78\<rparr>
        \<comment> \<open>\<open>self.fifo_packet = None\<close>\<close>
      | L78 \<Rightarrow> c\<lparr>fifo_packet := None, run_at := L66\<rparr>
        \<comment> \<open>\<open>time.sleep(0.01)\<close>\<close>
      | L81 \<Rightarrow> (emit Sleep c)\<lparr>run_at := L66\<rparr>
      | RunReturned \<Rightarrow> c
      | RunDied \<Rightarrow> c)"

text \<open>
  \<open>FifoLinux.stop\<close>. \<open>join\<close> returns once the worker thread has ended and blocks until
  then: a step at line 89 leaves the state as it is while the worker is alive.
  \<open>StopExit n\<close>: \<open>sys.exit(n)\<close> raised \<open>SystemExit\<close> in the calling thread.
  \<open>StopRaised\<close>: an \<open>OSError\<close> other than \<open>FileNotFoundError\<close> left \<open>stop\<close>.
\<close>

definition FifoLinux_stop_step :: "rm \<Rightarrow> linux \<Rightarrow> linux" where
  "FifoLinux_stop_step r c =
     (case stop_at c of
        \<comment> \<open>\<open>print('FIFO CANCEL')\<close>\<close>
        S86 \<Rightarrow> (emit Print c)\<lparr>stop_at := S87\<rparr>
        \<comment> \<open>\<open>self.fifo_recv_cancel = True\<close>\<close>
      | S87 \<Rightarrow> c\<lparr>fifo_recv_cancel := True, stop_at := S88\<rparr>
        \<comment> \<open>\<open>self.fifo_data = []\<close>\<close>
      | S88 \<Rightarrow> c\<lparr>fifo_data := [], stop_at := S89\<rparr>
        \<comment> \<open>\<open>self.join()\<close>\<close>
      | S89 \<Rightarrow> (if run_at c = RunReturned \<or> run_at c = RunDied
                 then (emit Joined c)\<lparr>stop_at := S91\<rparr> else c)
        \<comment> \<open>\<open>os.remove(self.fifo_path)\<close>\<close>
      | S91 \<Rightarrow> (case r of
                   Removed \<Rightarrow> (emit Unlink c)\<lparr>stop_at := StopReturned\<rparr>
                 | FileNotFound \<Rightarrow> c\<lparr>stop_at := S93\<rparr>
                 | OtherOSError \<Rightarrow> c\<lparr>stop_at := StopRaised\<rparr>)
        \<comment> \<open>\<open>logging.error(e)\<close>\<close>
      | S93 \<Rightarrow> (emit LogError c)\<lparr>stop_at := S94\<rparr>
        \<comment> \<open>\<open>sys.exit(0)\<close>\<close>
      | S94 \<Rightarrow> c\<lparr>stop_at := StopExit 0\<rparr>
      | StopReturned \<Rightarrow> c
      | StopExit n \<Rightarrow> c
      | StopRaised \<Rightarrow> c)"

fun FifoLinux_step :: "event \<Rightarrow> linux \<Rightarrow> linux" where
  "FifoLinux_step (Worker r) c = FifoLinux_run_step r c"
| "FifoLinux_step (AddData d) c = add_data d c"
| "FifoLinux_step (Stopper r) c = FifoLinux_stop_step r c"

fun FifoLinux_exec :: "event list \<Rightarrow> linux \<Rightarrow> linux" where
  "FifoLinux_exec [] c = c"
| "FifoLinux_exec (e # es) c = FifoLinux_exec es (FifoLinux_step e c)"

text \<open>The object as \<open>__init__\<close> leaves it, with both threads at their first statement.\<close>

definition FifoLinux_init :: "int \<Rightarrow> linux" where
  "FifoLinux_init lt =
     \<lparr>fifo_worker = None, fifo_recv_cancel = False, fifo_need_header = True,
      fifo_data = [], fifo_packet = None, last_packet = None, linktype = lt,
      run_at = L63, stop_at = S86, effects = []\<rparr>"

subsection \<open>FifoWindows\<close>

text \<open>
  \<open>FifoWindows.run\<close>, with the statements of \<open>open\<close> and \<open>create\<close> (lines 129,
  113, 132 and 133) in the place where \<open>run\<close> calls them: a \<open>pywintypes.error\<close>
  raised by \<open>CreateNamedPipe\<close> or by \<open>ConnectNamedPipe\<close> is caught there and printed.
  The whole body of \<open>run\<close> is inside one \<open>try\<close>: a \<open>pywintypes.error\<close> raised by
  \<open>WriteFile\<close> is logged and ends \<open>run\<close>. A call of the pipe library whose handle or
  buffer is \<open>None\<close> does nothing to the pipe; the model lets it end the thread
  (\<open>WRunDied\<close>). The header is built with the default link type.
\<close>

datatype windows_pc =
  W139 | W140 | W129 | W113 | W132 | W133 | W142 | W143 | W144 | W145 | W146 | W147 | W149
  | W150 | W151 | W154 | W156 | WRunReturned | WRunDied

datatype windows_stop_pc = T160 | T161 | T162 | WStopReturned

type_synonym windows = "(windows_pc, windows_stop_pc) system"

definition FifoWindows_run_step :: "io \<Rightarrow> windows \<Rightarrow> windows" where
  "FifoWindows_run_step r c =
     (case run_at c of
        \<comment> \<open>\<open>self.fifo_recv_cancel = False\<close>\<close>
        W139 \<Rightarrow> c\<lparr>fifo_recv_cancel := False, run_at := W140\<rparr>
        \<comment> \<open>\<open>if self.fifo_worker is None: self.open()\<close>\<close>
      | W140 \<Rightarrow> (if fifo_worker c = None then c\<lparr>run_at := W129\<rparr> else c\<lparr>run_at := W142\<rparr>)
        \<comment> \<open>\<open>if self.fifo_worker is None: self.create()\<close>\<close>
      | W129 \<Rightarrow> (if fifo_worker c = None then c\<lparr>run_at := W113\<rparr> else c\<lparr>run_at := W132\<rparr>)
        \<comment> \<open>\<open>try: self.fifo_worker = win32pipe.CreateNamedPipe(...)
            except pywintypes.error as e: print(e)\<close>\<close>
      | W113 \<Rightarrow> (case r of
                    Ok \<Rightarrow> c\<lparr>fifo_worker := Some Pipe, run_at := W132\<rparr>
                  | Fails \<Rightarrow> (emit Print c)\<lparr>run_at := W132\<rparr>)
        \<comment> \<open>\<open>try: win32pipe.ConnectNamedPipe(self.fifo_worker, None)
            except pywintypes.error as e: print(e)\<close>\<close>
      | W132 \<Rightarrow> (case fifo_worker c of
                    None \<Rightarrow> c\<lparr>run_at := WRunDied\<rparr>
                  | Some p \<Rightarrow>
                      (case r of
                         Ok \<Rightarrow> c\<lparr>run_at := W133\<rparr>
                       | Fails \<Rightarrow> (emit Print c)\<lparr>run_at := W142\<rparr>))
        \<comment> \<open>\<open>logging.info(...)\<close>\<close>
      | W133 \<Rightarrow> (emit LogInfo c)\<lparr>run_at := W142\<rparr>
        \<comment> \<open>\<open>while not self.fifo_recv_cancel:\<close>\<close>
      | W142 \<Rightarrow> (if fifo_recv_cancel c then c\<lparr>run_at := WRunReturned\<rparr>
                  else c\<lparr>run_at := W143\<rparr>)
        \<comment> \<open>\<open>if self.fifo_packet:\<close>\<close>
      | W143 \<Rightarrow> (if truthy (fifo_packet c) then c\<lparr>run_at := W144\<rparr> else c\<lparr>run_at := W154\<rparr>)
        \<comment> \<open>\<open>if self.fifo_packet != self.last_packet:\<close>\<close>
      | W144 \<Rightarrow> (if fifo_packet c \<noteq> last_packet c then c\<lparr>run_at := W145\<rparr>
                  else c\<lparr>run_at := W142\<rparr>)
        \<comment> \<open>\<open>if self.fifo_need_header:\<close>\<close>
      | W145 \<Rightarrow> (if fifo_need_header c then c\<lparr>run_at := W146\<rparr> else c\<lparr>run_at := W149\<rparr>)
        \<comment> \<open>\<open>win32file.WriteFile(self.fifo_worker, Pcap.get_global_header())\<close>\<close>
      | W146 \<Rightarrow> (case fifo_worker c of
                    None \<Rightarrow> c\<lparr>run_at := WRunDied\<rparr>
                  | Some p \<Rightarrow>
                      (case r of
                         Ok \<Rightarrow> (emit (WriteHeader None) c)\<lparr>run_at := W147\<rparr>
                       | Fails \<Rightarrow> c\<lparr>run_at := W156\<rparr>))
        \<comment> \<open>\<open>self.fifo_need_header = False\<close>\<close>
      | W147 \<Rightarrow> c\<lparr>fifo_need_header := False, run_at := W149\<rparr>
        \<comment> \<open>\<open>win32file.WriteFile(self.fifo_worker, self.fifo_packet)\<close>\<close>
      | W149 \<Rightarrow> (case fifo_worker c of
                    None \<Rightarrow> c\<lparr>run_at := WRunDied\<rparr>
                  | Some p \<Rightarrow>
                      (case fifo_packet c of
                         None \<Rightarrow> c\<lparr>run_at := WRunDied\<rparr>
                       | Some d \<Rightarrow>
                           (case r of
                              Ok \<Rightarrow> (emit (WritePacket d) c)\<lparr>run_at := W150\<rparr>
                            | Fails \<Rightarrow> c\<lparr>run_at := W156\<rparr>)))
        \<comment> \<open>\<open>self.last_packet = self.fifo_packet\<close>\<close>
      | W150 \<Rightarrow> c\<lparr>last_packet := fifo_packet c, run_at := W151\<rparr>
        \<comment> \<open>\<open>self.fifo_packet = None\<close>\<close>
      | W151 \<Rightarrow> c\<lparr>fifo_packet := None, run_at := W142\<rparr>
        \<comment> \<open>\<open>time.sleep(0.01)\<close>\<close>
      | W154 \<Rightarrow> (emit Sleep c)\<lparr>run_at := W142\<rparr>
        \<comment> \<open>\<open>except pywintypes.error as e: logging.error(e)\<close>\<close>
      | W156 \<Rightarrow> (emit LogError c)\<lparr>run_at := WRunReturned\<rparr>
      | WRunReturned \<Rightarrow> c
      | WRunDied \<Rightarrow> c)"

definition FifoWindows_stop_step :: "windows \<Rightarrow> windows" where
  "FifoWindows_stop_step c =
     (case stop_at c of
        \<comment> \<open>\<open>self.fifo_recv_cancel = True\<close>\<close>
        T160 \<Rightarrow> c\<lparr>fifo_recv_cancel := True, stop_at := T161\<rparr>
        \<comment> \<open>\<open>self.fifo_packet = None\<close>\<close>
      | T161 \<Rightarrow> c\<lparr>fifo_packet := None, stop_at := T162\<rparr>
        \<comment> \<open>\<open>self.join()\<close>\<close>
      | T162 \<Rightarrow> (if run_at c = WRunReturned \<or> run_at c = WRunDied
                  then (emit Joined c)\<lparr>stop_at := WStopReturned\<rparr> else c)
      | WStopReturned \<Rightarrow> c)"

fun FifoWindows_step :: "event \<Rightarrow> windows \<Rightarrow> windows" where
  "FifoWindows_step (Worker r) c = FifoWindows_run_step r c"
| "FifoWindows_step (AddData d) c = add_data d c"
| "FifoWindows_step (Stopper r) c = FifoWindows_stop_step c"

fun FifoWindows_exec :: "event list \<Rightarrow> windows \<Rightarrow> windows" where
  "FifoWindows_exec [] c = c"
| "FifoWindows_exec (e # es) c = FifoWindows_exec es (FifoWindows_step e c)"

definition FifoWindows_init :: "int \<Rightarrow> windows" where
  "FifoWindows_init lt =
     \<lparr>fifo_worker = None, fifo_recv_cancel = False, fifo_need_header = True,
      fifo_data = [], fifo_packet = None, last_packet = None, linktype = lt,
      run_at = W139, stop_at = T160, effects = []\<rparr>"

subsection \<open>Properties of an effect log\<close>

text \<open>
  A log is checked by running a small automaton over it: \<open>follows nxt ph es\<close> is the
  phase reached from \<open>ph\<close>, or \<open>None\<close> when some effect is not allowed in the phase in
  which it happens.
\<close>

fun follows :: "('p \<Rightarrow> effect \<Rightarrow> 'p option) \<Rightarrow> 'p \<Rightarrow> effect list \<Rightarrow> 'p option" where
  "follows nxt ph [] = Some ph"
| "follows nxt ph (e # es) =
     (case nxt ph e of None \<Rightarrow> None | Some ph' \<Rightarrow> follows nxt ph' es)"

text \<open>
  The order of header and records on the path-based pipe. Before any header, and while a
  written header has not been flushed, the only write allowed is a header; a flush right
  after a header write commits it; from then on no header may be written, only records
  and flushes.
\<close>

datatype header_phase = NoHeader | HeaderUnflushed | HeaderSent

fun path_pipe_next :: "header_phase \<Rightarrow> effect \<Rightarrow> header_phase option" where
  "path_pipe_next NoHeader (WriteHeader lt) = Some HeaderUnflushed"
| "path_pipe_next NoHeader (WritePacket d) = None"
| "path_pipe_next NoHeader Flush = None"
| "path_pipe_next HeaderUnflushed (WriteHeader lt) = Some HeaderUnflushed"
| "path_pipe_next HeaderUnflushed (WritePacket d) = None"
| "path_pipe_next HeaderUnflushed Flush = Some HeaderSent"
| "path_pipe_next HeaderSent (WriteHeader lt) = None"
| "path_pipe_next HeaderSent (WritePacket d) = Some HeaderSent"
| "path_pipe_next HeaderSent Flush = Some HeaderSent"
| "path_pipe_next ph e = Some ph"

text \<open>
  The same on the message pipe, which has no flush: the first write must be the header,
  and no header may follow it.
\<close>

fun message_pipe_next :: "header_phase \<Rightarrow> effect \<Rightarrow> header_phase option" where
  "message_pipe_next NoHeader (WriteHeader lt) = Some HeaderSent"
| "message_pipe_next NoHeader (WritePacket d) = None"
| "message_pipe_next HeaderUnflushed e = None"
| "message_pipe_next HeaderSent (WriteHeader lt) = None"
| "message_pipe_next HeaderSent (WritePacket d) = Some HeaderSent"
| "message_pipe_next ph e = Some ph"

text \<open>
  The order of the worker's effects and the release of the pipe file. Before \<open>join\<close>
  has returned, neither a removal nor its error report may happen; after it, no effect of
  the worker (pipe input/output, sleeping) may happen, and the only effect left is the
  removal of the file or the report that it was absent.
\<close>

datatype release_phase = BeforeJoin | AfterJoin | Released

fun release_next :: "release_phase \<Rightarrow> effect \<Rightarrow> release_phase option" where
  "release_next BeforeJoin Joined = Some AfterJoin"
| "release_next BeforeJoin Unlink = None"
| "release_next BeforeJoin LogError = None"
| "release_next BeforeJoin e = Some BeforeJoin"
| "release_next AfterJoin Unlink = Some Released"
| "release_next AfterJoin LogError = Some Released"
| "release_next AfterJoin e = None"
| "release_next Released e = None"

text \<open>The worker thread has ended; \<open>stop\<close> has got past its \<open>join\<close>.\<close>

fun run_ended :: "linux_pc \<Rightarrow> bool" where
  "run_ended RunReturned = True"
| "run_ended RunDied = True"
| "run_ended pc = False"

fun past_join :: "linux_stop_pc \<Rightarrow> bool" where
  "past_join S86 = False"
| "past_join S87 = False"
| "past_join S88 = False"
| "past_join S89 = False"
| "past_join pc = True"

text \<open>
  The worker is not in the middle of an iteration that found a frame: it is before the
  loop (opening the pipe included), at the loop test, at the test of the slot, sleeping,
  or it has ended.
\<close>

fun idle_pc :: "linux_pc \<Rightarrow> bool" where
  "idle_pc L63 = True"
| "idle_pc L64 = True"
| "idle_pc L54 = True"
| "idle_pc L49 = True"
| "idle_pc L57 = True"
| "idle_pc L66 = True"
| "idle_pc L68 = True"
| "idle_pc L81 = True"
| "idle_pc RunReturned = True"
| "idle_pc RunDied = True"
| "idle_pc pc = False"

fun idle_wpc :: "windows_pc \<Rightarrow> bool" where
  "idle_wpc W139 = True"
| "idle_wpc W140 = True"
| "idle_wpc W129 = True"
| "idle_wpc W113 = True"
| "idle_wpc W132 = True"
| "idle_wpc W133 = True"
| "idle_wpc W142 = True"
| "idle_wpc W143 = True"
| "idle_wpc W154 = True"
| "idle_wpc W156 = True"
| "idle_wpc WRunReturned = True"
| "idle_wpc WRunDied = True"
| "idle_wpc pc = False"

text \<open>
  Schedules in which every submission is the frame \<open>d\<close>, and schedules in which
  \<open>stop\<close> takes no step.
\<close>

fun submits_only :: "bytes \<Rightarrow> event list \<Rightarrow> bool" where
  "submits_only d [] = True"
| "submits_only d (AddData d' # es) = (d' = d \<and> submits_only d es)"
| "submits_only d (e # es) = submits_only d es"

fun no_stop :: "event list \<Rightarrow> bool" where
  "no_stop [] = True"
| "no_stop (Stopper r # es) = False"
| "no_stop (e # es) = no_stop es"





subsection \<open>Invariants of the executions\<close>

text \<open>
  Where the header automaton stands, by the statement the path-based worker is at: the
  header flag is still set exactly as long as no header write has been followed by a
  successful flush.
\<close>

definition header_inv_linux :: "linux \<Rightarrow> bool" where
  "header_inv_linux c =
     (let ph = follows path_pipe_next NoHeader (effects c) in
      if run_at c = L72 then fifo_need_header c \<and> ph = Some HeaderUnflushed
      else if run_at c = L73 then fifo_need_header c \<and> ph = Some HeaderSent
      else if fifo_need_header c
        then (ph = Some NoHeader \<or> ph = Some HeaderUnflushed)
             \<and> run_at c \<notin> {L75, L76, L77, L78}
      else ph = Some HeaderSent \<and> run_at c \<noteq> L71)"

definition header_inv_windows :: "windows \<Rightarrow> bool" where
  "header_inv_windows c =
     (let ph = follows message_pipe_next NoHeader (effects c) in
      if run_at c = W147 then fifo_need_header c \<and> ph = Some HeaderSent
      else if fifo_need_header c
        then ph = Some NoHeader \<and> run_at c \<notin> {W149, W150, W151}
      else ph = Some HeaderSent \<and> run_at c \<noteq> W146)"

text \<open>
  Where the release automaton stands, by the statement \<open>stop\<close> is at; past the
  \<open>join\<close> the worker has ended.
\<close>

definition release_inv :: "linux \<Rightarrow> bool" where
  "release_inv c =
     (let ph = follows release_next BeforeJoin (effects c) in
      if \<not> past_join (stop_at c) then ph = Some BeforeJoin
      else run_ended (run_at c)
           \<and> (if stop_at c = S91 \<or> stop_at c = S93 \<or> stop_at c = StopRaised
                then ph = Some AfterJoin else ph = Some Released)
           \<and> (\<forall>n. stop_at c = StopExit n \<longrightarrow> n = 0))"

text \<open>
  What the end of the effect log is, by the statement \<open>stop\<close> is at: past the
  \<open>join\<close> the log ends with the join, followed by the removal once \<open>stop\<close> has
  returned, or by the error report once the absent file has been logged; \<open>stop\<close> ends
  by \<open>SystemExit\<close> only with status 0.
\<close>

definition release_log_inv :: "linux \<Rightarrow> bool" where
  "release_log_inv c =
     ((past_join (stop_at c) \<longrightarrow> run_ended (run_at c))
      \<and> (stop_at c = S91 \<or> stop_at c = S93 \<or> stop_at c = StopRaised
           \<longrightarrow> take 1 (rev (effects c)) = [Joined])
      \<and> (stop_at c = S94 \<longrightarrow> take 2 (rev (effects c)) = [LogError, Joined])
      \<and> (\<forall>n. stop_at c = StopExit n \<longrightarrow>
            n = 0 \<and> take 2 (rev (effects c)) = [LogError, Joined])
      \<and> (stop_at c = StopReturned \<longrightarrow> take 2 (rev (effects c)) = [Unlink, Joined]))"

text \<open>\<open>stop\<close> has found the file absent: it is at, or past, the report of the error.\<close>

fun exiting :: "linux_stop_pc \<Rightarrow> bool" where
  "exiting S93 = True"
| "exiting S94 = True"
| "exiting (StopExit n) = True"
| "exiting pc = False"



text \<open>
  Inside an iteration the slot holds a frame; the worker has died only with the pipe
  never opened, and \<open>run\<close> has returned only with the cancellation flag set.
\<close>

definition alive_inv :: "linux \<Rightarrow> bool" where
  "alive_inv c =
     ((\<not> idle_pc (run_at c) \<longrightarrow> fifo_packet c \<noteq> None)
      \<and> (run_at c = RunDied \<longrightarrow> fifo_worker c = None)
      \<and> (run_at c = RunReturned \<longrightarrow> fifo_recv_cancel c))"

text \<open>
  The slot holds the frame that \<open>last_packet\<close> records, the worker is at most at the
  comparison of the two, and the pipe input/output so far is \<open>es\<close>.
\<close>

definition dup_inv :: "bytes \<Rightarrow> effect list \<Rightarrow> linux \<Rightarrow> bool" where
  "dup_inv d es c =
     (last_packet c = Some d \<and> fifo_packet c = Some d
      \<and> (idle_pc (run_at c) \<or> run_at c = L69)
      \<and> filter is_pipe_io (effects c) = es)"

definition dup_inv_windows :: "bytes \<Rightarrow> effect list \<Rightarrow> windows \<Rightarrow> bool" where
  "dup_inv_windows d es c =
     (last_packet c = Some d \<and> fifo_packet c = Some d
      \<and> (idle_wpc (run_at c) \<or> run_at c = W144)
      \<and> filter is_pipe_io (effects c) = es)"

text \<open>
  Two states that are equal, or differ only in that the slot of the first holds the empty
  frame where the slot of the second holds nothing, the worker being idle.
\<close>

definition empty_rel :: "linux \<Rightarrow> linux \<Rightarrow> bool" where
  "empty_rel c1 c0 =
     (c1 = c0 \<or>
      (c0 = c1\<lparr>fifo_packet := None\<rparr> \<and> fifo_packet c1 = Some [] \<and> idle_pc (run_at c1)))"

text \<open>Nothing but empty frames has been submitted, and nothing has gone to the pipe.\<close>

definition only_empty_inv :: "linux \<Rightarrow> bool" where
  "only_empty_inv c =
     ((fifo_packet c = None \<or> fifo_packet c = Some [])
      \<and> idle_pc (run_at c) \<and> filter is_pipe_io (effects c) = [])"

section \<open>Properties of the command encoding\<close>

subsection \<open>Facts about the encoding helpers\<close>

lemma get_channel_bytes_loop_absent:
  "channel_index \<notin> fst ` set cs \<Longrightarrow> get_channel_bytes_loop cs channel_index = EmptyBytes"
  by (induction cs) auto

lemma get_channel_bytes_loop_present:
  "channel_index \<in> fst ` set cs \<Longrightarrow>
     \<exists>c \<in> set cs. fst c = channel_index \<and> get_channel_bytes_loop cs channel_index = Freq (snd c)"
  by (induction cs) auto

lemma to_bytes_2:
  "0 \<le> n \<Longrightarrow> n < 65536 \<Longrightarrow> to_bytes n 2 = Inr [word_of_int n, word_of_int (n div 256)]"
  by (simp add: to_bytes_def numeral_2_eq_2)

lemma calculate_frequency_Freq:
  "0 \<le> trunc_rat f \<Longrightarrow> trunc_rat f < 65536 \<Longrightarrow>
     calculate_frequency (Freq f) =
       Inr [word_of_int (trunc_rat f), word_of_int (trunc_rat f div 256), 0, 0]"
  by (simp add: calculate_frequency_def calculate_fractional_frequency_def to_bytes_2)

lemma get_protocol_by_name_loop_find:
  "get_protocol_by_name_loop ms nm =
     (case List.find (\<lambda>m. member_name m = nm \<or> nm \<in> set (common_names (member_value m))) ms of
        None \<Rightarrow> None
      | Some m \<Rightarrow> if member_name m = nm then Some (ByMember m)
                  else Some (ByAlias (member_value m)))"
  by (induction ms) (auto simp: find_by_name_def)

subsection \<open>The frequency payload\<close>

text \<open>
  On a frequency that is a whole number of MHz within 16 bits the code and the specified
  payload agree; the two differ exactly in the fractional field.
\<close>

lemma calculate_frequency_integral:
  "0 \<le> n \<Longrightarrow> n < 65536 \<Longrightarrow>
     calculate_frequency (Freq (of_int n)) = spec_frequency_payload (of_int n)"
  by (simp add: calculate_frequency_def calculate_fractional_frequency_def
      spec_frequency_payload_def trunc_rat_def to_bytes_2 CONST_FRECUENCY_def)

text \<open>
  Claim C1. The payload of \<open>command_cfg_frequency\<close> should hold the integer part of the
  channel's frequency in bytes 0-1 and the fractional part, in units of 1/65536 MHz, in
  bytes 2-3, so that 433.5 MHz carries the fractional field 32768. The code computes the
  fractional field from \<open>integer_value - integer_value\<close>: at 433.5 MHz
  \<open>calculate_frequency\<close> returns \<open>B1 01 00 00\<close>, where the specified payload is
  \<open>B1 01 00 80\<close>, and the command built for a channel of that frequency carries the
  zero fraction.
\<close>

theorem calculate_frequency_zeroes_fraction:
  "calculate_frequency (Freq (867 / 2)) = Inr [0xB1, 0x01, 0x00, 0x00]
   \<and> spec_frequency_payload (867 / 2) = Inr [0xB1, 0x01, 0x00, 0x80]
   \<and> command_cfg_frequency (PROTOCOL_LORA\<lparr>channel_range := [(0, 867 / 2)]\<rparr>) 0
       = Inr (PacketCommand CMD_CFG_FREQUENCY [0xB1, 0x01, 0x00, 0x00])"
  by code_simp

subsection \<open>The startup sequence\<close>

text \<open>
  Claim C2, as stated: \<open>command_startup\<close> returns its five commands for every channel
  index. It does not: for an index outside the channel set the call raises the
  \<open>ValueError\<close> of \<open>command_cfg_frequency\<close>, and for a frequency whose integer part
  does not fit in 16 bits it raises \<open>OverflowError\<close>.
\<close>

theorem command_startup_unknown_channel_counterexample:
  "command_startup PROTOCOL_BLE 0 = Inl ValueError
   \<and> command_startup (PROTOCOL_LORA\<lparr>channel_range := [(0, 70000)]\<rparr>) 0 = Inl OverflowError"
  by code_simp

text \<open>
  Claim C2, amended: for every descriptor whose frequencies have an integer part within
  0..65535 and every channel index present in its channel set, \<open>command_startup\<close>
  returns exactly the five commands ping, stop, configurePhy (with the descriptor's
  \<open>phy_index\<close> as payload), the command that \<open>command_cfg_frequency\<close> returns for the
  channel (opcode \<open>CMD_CFG_FREQUENCY\<close>, 4-byte payload), and start, in this order.
\<close>

theorem command_startup_sequence:
  assumes "channel \<in> set (list_channel_range self)"
    and "\<forall>c \<in> set (channel_range self). 0 \<le> trunc_rat (snd c) \<and> trunc_rat (snd c) < 65536"
  shows "\<exists>cfg. command_cfg_frequency self channel = Inr cfg
           \<and> opcode cfg = CMD_CFG_FREQUENCY \<and> length (payload cfg) = 4
           \<and> command_startup self channel =
               Inr [PacketCommand CMD_PING [], PacketCommand CMD_STOP [],
                    PacketCommand CMD_CFG_PHY (phy_index self), cfg,
                    PacketCommand CMD_START []]"
proof -
  from assms(1) have "channel \<in> fst ` set (channel_range self)"
    by (simp add: list_channel_range_def)
  then obtain c where c: "c \<in> set (channel_range self)"
      "get_channel_bytes self channel = Freq (snd c)"
    using get_channel_bytes_loop_present [of channel "channel_range self"]
    by (auto simp: get_channel_bytes_def)
  from c(1) assms(2) have "0 \<le> trunc_rat (snd c)" "trunc_rat (snd c) < 65536"
    by auto
  then have "calculate_frequency (get_channel_bytes self channel) =
      Inr [word_of_int (trunc_rat (snd c)), word_of_int (trunc_rat (snd c) div 256), 0, 0]"
    using c(2) by (simp add: calculate_frequency_Freq)
  then show ?thesis
    by (simp add: command_startup_def command_cfg_frequency_def command_ping_def
        command_stop_def command_cfg_phy_def command_start_def)
qed

theorem command_startup_sequence_witness:
  "37 \<in> set (list_channel_range PROTOCOL_BLE)
   \<and> (\<exists>cfg. command_cfg_frequency PROTOCOL_BLE 37 = Inr cfg
           \<and> opcode cfg = CMD_CFG_FREQUENCY \<and> length (payload cfg) = 4
           \<and> command_startup PROTOCOL_BLE 37 =
               Inr [PacketCommand CMD_PING [], PacketCommand CMD_STOP [],
                    PacketCommand CMD_CFG_PHY (phy_index PROTOCOL_BLE), cfg,
                    PacketCommand CMD_START []])"
proof -
  have h1: "37 \<in> set (list_channel_range PROTOCOL_BLE)"
    by (simp add: list_channel_range_def PROTOCOL_BLE_def)
  have h2: "\<forall>c \<in> set (channel_range PROTOCOL_BLE).
              0 \<le> trunc_rat (snd c) \<and> trunc_rat (snd c) < 65536"
    by (simp add: PROTOCOL_BLE_def trunc_rat_def)
  show ?thesis
    using h1 command_startup_sequence [OF h1 h2] by blast
qed

subsection \<open>An unknown channel\<close>

text \<open>
  Claim C4. When the channel index is not in the descriptor's channel set,
  \<open>get_channel_bytes\<close> returns \<open>b""\<close>, the conversion \<open>int(b"")\<close> raises, and
  \<open>command_cfg_frequency\<close> ends with that exception (Python's \<open>ValueError\<close>, which is
  how the code signals the unknown channel to its caller) before any
  \<open>PacketCommand\<close> is built; \<open>command_startup\<close> for that index returns no command list
  either.
\<close>

theorem command_cfg_frequency_unknown_channel:
  assumes "channel \<notin> set (list_channel_range self)"
  shows "get_channel_bytes self channel = EmptyBytes
         \<and> command_cfg_frequency self channel = Inl ValueError
         \<and> command_startup self channel = Inl ValueError"
proof -
  from assms have "get_channel_bytes self channel = EmptyBytes"
    by (simp add: get_channel_bytes_def list_channel_range_def get_channel_bytes_loop_absent)
  then show ?thesis
    by (simp add: command_startup_def command_cfg_frequency_def calculate_frequency_def
        calculate_fractional_frequency_def)
qed

theorem command_cfg_frequency_unknown_channel_witness:
  "40 \<notin> set (list_channel_range PROTOCOL_BLE)
   \<and> get_channel_bytes PROTOCOL_BLE 40 = EmptyBytes
   \<and> command_cfg_frequency PROTOCOL_BLE 40 = Inl ValueError
   \<and> command_startup PROTOCOL_BLE 40 = Inl ValueError"
proof -
  have h: "40 \<notin> set (list_channel_range PROTOCOL_BLE)"
    by (simp add: list_channel_range_def PROTOCOL_BLE_def)
  show ?thesis
    using h command_cfg_frequency_unknown_channel [OF h] by simp
qed

subsection \<open>Resolution by name\<close>

text \<open>
  Claim C6, as stated: resolution matches a descriptor's name or one of its aliases. The
  BLE descriptor's name is \<open>Bluetooth LE\<close>, and resolving that string finds nothing:
  the comparison in \<open>get_protocol_by_name\<close> is with the enumeration member's identifier.
\<close>

theorem get_protocol_by_name_display_name_counterexample:
  "name PROTOCOL_BLE = ''Bluetooth LE'' \<and> get_protocol_by_name ''Bluetooth LE'' = None"
  by (simp add: get_protocol_by_name_def PROTOCOLSLIST_def find_by_name_def
      PROTOCOL_BLE_def PROTOCOL_ZIGBEE_def PROTOCOL_THREAD_def PROTOCOL_LORA_def)

text \<open>
  Claim C6, amended: resolution is a case-sensitive match of the string against a
  registry member's identifier (such as \<open>PROTOCOL_BLE\<close>) or any alias of its descriptor;
  the first member in registry order that matches wins, an identifier match returns the
  registry member and an alias match returns the descriptor. Resolving \<open>ble\<close>,
  \<open>bluetooth\<close> and \<open>bluetoothle\<close> each returns the BLE descriptor, and resolving
  \<open>BLE\<close> or \<open>nonexistent\<close> returns \<open>None\<close>.
\<close>

theorem get_protocol_by_name_resolution:
  "get_protocol_by_name nm =
     (case List.find (\<lambda>m. member_name m = nm \<or> nm \<in> set (common_names (member_value m)))
             PROTOCOLSLIST of
        None \<Rightarrow> None
      | Some m \<Rightarrow> if member_name m = nm then Some (ByMember m)
                  else Some (ByAlias (member_value m)))
   \<and> get_protocol_by_name ''ble'' = Some (ByAlias PROTOCOL_BLE)
   \<and> get_protocol_by_name ''bluetooth'' = Some (ByAlias PROTOCOL_BLE)
   \<and> get_protocol_by_name ''bluetoothle'' = Some (ByAlias PROTOCOL_BLE)
   \<and> get_protocol_by_name ''BLE'' = None
   \<and> get_protocol_by_name ''nonexistent'' = None"
proof -
  have "get_protocol_by_name ''ble'' = Some (ByAlias PROTOCOL_BLE)"
       "get_protocol_by_name ''bluetooth'' = Some (ByAlias PROTOCOL_BLE)"
       "get_protocol_by_name ''bluetoothle'' = Some (ByAlias PROTOCOL_BLE)"
    by (simp_all add: get_protocol_by_name_def PROTOCOLSLIST_def find_by_name_def
        PROTOCOL_BLE_def)
  moreover have "get_protocol_by_name ''BLE'' = None"
       "get_protocol_by_name ''nonexistent'' = None"
    by (simp_all add: get_protocol_by_name_def PROTOCOLSLIST_def find_by_name_def
      PROTOCOL_BLE_def PROTOCOL_ZIGBEE_def PROTOCOL_THREAD_def PROTOCOL_LORA_def)
  ultimately show ?thesis
    by (simp add: get_protocol_by_name_def get_protocol_by_name_loop_find)
qed

section \<open>Properties of the streaming pipe\<close>

subsection \<open>Invariants are kept by every step\<close>

lemma follows_append:
  "follows nxt ph (xs @ ys) =
     (case follows nxt ph xs of None \<Rightarrow> None | Some ph' \<Rightarrow> follows nxt ph' ys)"
  by (induction xs arbitrary: ph) (auto split: option.splits)

lemma FifoLinux_exec_invariant:
  assumes "\<And>e c. P c \<Longrightarrow> P (FifoLinux_step e c)" and "P c"
  shows "P (FifoLinux_exec es c)"
  using assms(2) by (induction es arbitrary: c) (auto intro: assms(1))

lemma FifoWindows_exec_invariant:
  assumes "\<And>e c. P c \<Longrightarrow> P (FifoWindows_step e c)" and "P c"
  shows "P (FifoWindows_exec es c)"
  using assms(2) by (induction es arbitrary: c) (auto intro: assms(1))

lemma header_inv_linux_step:
  assumes "header_inv_linux c"
  shows "header_inv_linux (FifoLinux_step e c)"
proof (cases e)
  case (Worker r)
  from assms show ?thesis
    unfolding Worker
    by (cases "run_at c"; cases r)
       (auto simp: header_inv_linux_def FifoLinux_run_step_def emit_def
          follows_append Let_def split: option.splits if_splits)
next
  case (AddData d)
  from assms show ?thesis
    unfolding AddData by (auto simp: header_inv_linux_def add_data_def Let_def)
next
  case (Stopper r)
  from assms show ?thesis
    unfolding Stopper
    by (cases "stop_at c"; cases r)
       (auto simp: header_inv_linux_def FifoLinux_stop_step_def emit_def
          follows_append Let_def split: option.splits if_splits)
qed

lemma header_inv_windows_step:
  assumes "header_inv_windows c"
  shows "header_inv_windows (FifoWindows_step e c)"
proof (cases e)
  case (Worker r)
  from assms show ?thesis
    unfolding Worker
    by (cases "run_at c"; cases r)
       (auto simp: header_inv_windows_def FifoWindows_run_step_def
          emit_def follows_append Let_def split: option.splits if_splits)
next
  case (AddData d)
  from assms show ?thesis
    unfolding AddData by (auto simp: header_inv_windows_def add_data_def Let_def)
next
  case (Stopper r)
  from assms show ?thesis
    unfolding Stopper
    by (cases "stop_at c")
       (auto simp: header_inv_windows_def FifoWindows_stop_step_def emit_def
          follows_append Let_def split: option.splits if_splits)
qed

lemma release_inv_step:
  assumes "release_inv c"
  shows "release_inv (FifoLinux_step e c)"
proof (cases e)
  case (Worker r)
  from assms show ?thesis
    unfolding Worker
    by (cases "run_at c"; cases r)
       (auto simp: release_inv_def FifoLinux_run_step_def emit_def
          follows_append Let_def split: option.splits if_splits)
next
  case (AddData d)
  from assms show ?thesis
    unfolding AddData by (auto simp: release_inv_def add_data_def Let_def)
next
  case (Stopper r)
  from assms show ?thesis
    unfolding Stopper
    by (cases "stop_at c"; cases r)
       (auto simp: release_inv_def FifoLinux_stop_step_def emit_def
          follows_append Let_def split: option.splits if_splits)
qed

lemma truthy_iff: "truthy x \<longleftrightarrow> (\<exists>d. x = Some d \<and> d \<noteq> [])"
  by (cases x) auto

lemma alive_inv_step:
  assumes "alive_inv c"
  shows "alive_inv (FifoLinux_step e c)"
proof (cases e)
  case (Worker r)
  from assms show ?thesis
    unfolding Worker
    by (cases "run_at c"; cases r)
       (auto simp: alive_inv_def FifoLinux_run_step_def emit_def
          truthy_iff split: option.splits if_splits)
next
  case (AddData d)
  from assms show ?thesis
    unfolding AddData by (auto simp: alive_inv_def add_data_def)
next
  case (Stopper r)
  from assms show ?thesis
    unfolding Stopper
    by (cases "stop_at c"; cases r)
       (auto simp: alive_inv_def FifoLinux_stop_step_def emit_def
          split: option.splits if_splits)
qed

lemma dup_inv_step:
  assumes "dup_inv d es c" and "submits_only d [e]"
  shows "dup_inv d es (FifoLinux_step e c)"
proof (cases e)
  case (Worker r)
  from assms show ?thesis
    unfolding Worker
    by (cases "run_at c"; cases r)
       (auto simp: dup_inv_def FifoLinux_run_step_def emit_def
          split: option.splits if_splits)
next
  case (AddData d')
  from assms show ?thesis
    unfolding AddData by (auto simp: dup_inv_def add_data_def)
next
  case (Stopper r)
  from assms show ?thesis
    unfolding Stopper
    by (cases "stop_at c"; cases r)
       (auto simp: dup_inv_def FifoLinux_stop_step_def emit_def
          split: option.splits if_splits)
qed

lemma submits_only_Cons: "submits_only d (e # es) \<longleftrightarrow> submits_only d [e] \<and> submits_only d es"
  by (cases e) auto

lemma dup_inv_exec:
  "dup_inv d es c \<Longrightarrow> submits_only d sched \<Longrightarrow> dup_inv d es (FifoLinux_exec sched c)"
proof (induction sched arbitrary: c)
  case Nil
  then show ?case by simp
next
  case (Cons e sched)
  from Cons.prems(2) have e: "submits_only d [e]" and rest: "submits_only d sched"
    using submits_only_Cons [of d e sched] by auto
  from Cons.prems(1) e have "dup_inv d es (FifoLinux_step e c)"
    by (rule dup_inv_step)
  with rest show ?case
    by (simp add: Cons.IH)
qed

lemma dup_inv_windows_step:
  assumes "dup_inv_windows d es c" and "submits_only d [e]" and "no_stop [e]"
  shows "dup_inv_windows d es (FifoWindows_step e c)"
proof (cases e)
  case (Worker r)
  from assms show ?thesis
    unfolding Worker
    by (cases "run_at c"; cases r)
       (auto simp: dup_inv_windows_def FifoWindows_run_step_def emit_def
          split: option.splits if_splits)
next
  case (AddData d')
  from assms show ?thesis
    unfolding AddData by (auto simp: dup_inv_windows_def add_data_def)
next
  case (Stopper r)
  from assms show ?thesis
    unfolding Stopper by simp
qed

lemma no_stop_Cons: "no_stop (e # es) \<longleftrightarrow> no_stop [e] \<and> no_stop es"
  by (cases e) auto

lemma dup_inv_windows_exec:
  "dup_inv_windows d es c \<Longrightarrow> submits_only d sched \<Longrightarrow> no_stop sched \<Longrightarrow>
     dup_inv_windows d es (FifoWindows_exec sched c)"
proof (induction sched arbitrary: c)
  case Nil
  then show ?case by simp
next
  case (Cons e sched)
  from Cons.prems(2) have e: "submits_only d [e]" and rest: "submits_only d sched"
    using submits_only_Cons [of d e sched] by auto
  from Cons.prems(3) have e': "no_stop [e]" and rest': "no_stop sched"
    using no_stop_Cons [of e sched] by auto
  from Cons.prems(1) e e' have "dup_inv_windows d es (FifoWindows_step e c)"
    by (rule dup_inv_windows_step)
  with rest rest' show ?case
    by (simp add: Cons.IH)
qed

lemma empty_rel_step:
  assumes "empty_rel c1 c0"
  shows "empty_rel (FifoLinux_step e c1) (FifoLinux_step e c0)"
proof (cases "c1 = c0")
  case True
  then show ?thesis by (simp add: empty_rel_def)
next
  case False
  with assms have c0: "c0 = c1\<lparr>fifo_packet := None\<rparr>" and slot: "fifo_packet c1 = Some []"
    and idle: "idle_pc (run_at c1)"
    by (auto simp: empty_rel_def)
  show ?thesis
  proof (cases e)
    case (Worker r)
    from slot idle show ?thesis
      unfolding Worker c0
      by (cases "run_at c1"; cases r)
         (auto simp: empty_rel_def FifoLinux_run_step_def emit_def
            split: option.splits if_splits)
  next
    case (AddData d)
    from slot idle show ?thesis
      unfolding AddData c0 by (auto simp: empty_rel_def add_data_def)
  next
    case (Stopper r)
    from slot idle show ?thesis
      unfolding Stopper c0
      by (cases "stop_at c1"; cases r)
         (auto simp: empty_rel_def FifoLinux_stop_step_def emit_def
            split: option.splits if_splits)
  qed
qed

lemma empty_rel_exec:
  "empty_rel c1 c0 \<Longrightarrow> empty_rel (FifoLinux_exec sched c1) (FifoLinux_exec sched c0)"
  by (induction sched arbitrary: c1 c0) (auto intro: empty_rel_step)

lemma only_empty_inv_step:
  assumes "only_empty_inv c" and "submits_only [] [e]"
  shows "only_empty_inv (FifoLinux_step e c)"
proof (cases e)
  case (Worker r)
  from assms show ?thesis
    unfolding Worker
    by (cases "run_at c"; cases r)
       (auto simp: only_empty_inv_def FifoLinux_run_step_def emit_def
          split: option.splits if_splits)
next
  case (AddData d')
  from assms show ?thesis
    unfolding AddData by (auto simp: only_empty_inv_def add_data_def)
next
  case (Stopper r)
  from assms show ?thesis
    unfolding Stopper
    by (cases "stop_at c"; cases r)
       (auto simp: only_empty_inv_def FifoLinux_stop_step_def emit_def
          split: option.splits if_splits)
qed

lemma only_empty_inv_exec:
  "only_empty_inv c \<Longrightarrow> submits_only [] sched \<Longrightarrow> only_empty_inv (FifoLinux_exec sched c)"
proof (induction sched arbitrary: c)
  case Nil
  then show ?case by simp
next
  case (Cons e sched)
  from Cons.prems(2) have e: "submits_only [] [e]" and rest: "submits_only [] sched"
    using submits_only_Cons [of "[]" e sched] by auto
  from Cons.prems(1) e have "only_empty_inv (FifoLinux_step e c)"
    by (rule only_empty_inv_step)
  with rest show ?case
    by (simp add: Cons.IH)
qed


lemma release_log_inv_step:
  assumes "release_log_inv c"
  shows "release_log_inv (FifoLinux_step e c)"
proof (cases e)
  case (Worker r)
  from assms show ?thesis
    unfolding Worker
    by (cases "run_at c"; cases r; cases "stop_at c")
       (auto simp: release_log_inv_def FifoLinux_run_step_def emit_def
          split: option.splits if_splits)
next
  case (AddData d)
  from assms show ?thesis
    unfolding AddData by (auto simp: release_log_inv_def add_data_def)
next
  case (Stopper r)
  from assms show ?thesis
    unfolding Stopper
    by (cases "stop_at c"; cases r; cases "run_at c")
       (auto simp: release_log_inv_def FifoLinux_stop_step_def emit_def
          split: option.splits if_splits)
qed

lemma exiting_step: "exiting (stop_at c) \<Longrightarrow> exiting (stop_at (FifoLinux_step e c))"
proof (cases e)
  case (Worker r)
  assume "exiting (stop_at c)"
  then show ?thesis
    unfolding Worker
    by (cases "run_at c"; cases r)
       (auto simp: FifoLinux_run_step_def emit_def split: option.splits)
next
  case (AddData d)
  assume "exiting (stop_at c)"
  then show ?thesis
    unfolding AddData by (simp add: add_data_def)
next
  case (Stopper r)
  assume "exiting (stop_at c)"
  then show ?thesis
    unfolding Stopper
    by (cases "stop_at c") (auto simp: FifoLinux_stop_step_def emit_def)
qed

lemma exiting_exec: "exiting (stop_at c) \<Longrightarrow> exiting (stop_at (FifoLinux_exec sched c))"
  by (rule FifoLinux_exec_invariant [where P = "\<lambda>c. exiting (stop_at c)"])
     (simp_all add: exiting_step)







subsection \<open>What the automata accept\<close>

text \<open>
  A log that the path-based automaton accepts has, before each record, a header write and
  a flush, and no header write after a record. A log that the message-pipe automaton
  accepts has the same order and holds at most one header write, with no write before it.
\<close>

lemma follows_path_sent:
  "follows path_pipe_next HeaderSent es = Some ph \<Longrightarrow>
     ph = HeaderSent \<and> (\<forall>lt. WriteHeader lt \<notin> set es)"
proof (induction es)
  case Nil
  then show ?case by simp
next
  case (Cons e es)
  then show ?case by (cases e) (auto split: option.splits)
qed

lemma follows_path_reaches_sent:
  "follows path_pipe_next ph es = Some HeaderSent \<Longrightarrow>
     (ph = NoHeader \<longrightarrow> (\<exists>lt. WriteHeader lt \<in> set es))
     \<and> (ph \<noteq> HeaderSent \<longrightarrow> Flush \<in> set es)"
proof (induction es arbitrary: ph)
  case Nil
  then show ?case by simp
next
  case (Cons e es)
  then show ?case
    by (cases ph; cases e) (auto split: option.splits)
qed

lemma path_pipe_next_packet:
  "path_pipe_next ph (WritePacket d) = Some ph' \<Longrightarrow> ph = HeaderSent \<and> ph' = HeaderSent"
  by (cases ph) auto

lemma path_pipe_order:
  assumes "follows path_pipe_next NoHeader (xs @ WritePacket d # ys) \<noteq> None"
  shows "(\<exists>lt. WriteHeader lt \<in> set xs) \<and> Flush \<in> set xs \<and> (\<forall>lt. WriteHeader lt \<notin> set ys)"
proof -
  from assms obtain ph where ph: "follows path_pipe_next NoHeader xs = Some ph"
    and rest: "follows path_pipe_next ph (WritePacket d # ys) \<noteq> None"
    by (auto simp: follows_append split: option.splits)
  from rest obtain ph' where "path_pipe_next ph (WritePacket d) = Some ph'"
    and ys: "follows path_pipe_next ph' ys \<noteq> None"
    by (auto split: option.splits)
  then have sent: "ph = HeaderSent" "ph' = HeaderSent"
    using path_pipe_next_packet by blast+
  from ph sent(1) have "(\<exists>lt. WriteHeader lt \<in> set xs) \<and> Flush \<in> set xs"
    using follows_path_reaches_sent [of NoHeader xs] by simp
  moreover from ys sent(2) have "\<forall>lt. WriteHeader lt \<notin> set ys"
    using follows_path_sent [of ys] by auto
  ultimately show ?thesis by simp
qed

lemma follows_message_sent:
  "follows message_pipe_next HeaderSent es = Some ph \<Longrightarrow>
     ph = HeaderSent \<and> (\<forall>lt. WriteHeader lt \<notin> set es)"
proof (induction es)
  case Nil
  then show ?case by simp
next
  case (Cons e es)
  then show ?case by (cases e) (auto split: option.splits)
qed

lemma follows_message_fresh:
  "follows message_pipe_next NoHeader es = Some NoHeader \<Longrightarrow>
     (\<forall>lt. WriteHeader lt \<notin> set es) \<and> (\<forall>d. WritePacket d \<notin> set es)"
proof (induction es)
  case Nil
  then show ?case by simp
next
  case (Cons e es)
  then show ?case
    by (cases e) (auto split: option.splits dest: follows_message_sent)
qed

lemma message_pipe_next_packet:
  "message_pipe_next ph (WritePacket d) = Some ph' \<Longrightarrow> ph = HeaderSent \<and> ph' = HeaderSent"
  by (cases ph) auto

lemma message_pipe_next_header:
  "message_pipe_next ph (WriteHeader lt) = Some ph' \<Longrightarrow> ph = NoHeader \<and> ph' = HeaderSent"
  by (cases ph) auto

lemma follows_message_reaches_sent:
  "follows message_pipe_next NoHeader es = Some HeaderSent \<Longrightarrow> \<exists>lt. WriteHeader lt \<in> set es"
proof (induction es)
  case Nil
  then show ?case by simp
next
  case (Cons e es)
  then show ?case
    by (cases e) (auto split: option.splits)
qed

lemma message_pipe_order:
  assumes "follows message_pipe_next NoHeader (xs @ WritePacket d # ys) \<noteq> None"
  shows "(\<exists>lt. WriteHeader lt \<in> set xs) \<and> (\<forall>lt. WriteHeader lt \<notin> set ys)"
proof -
  from assms obtain ph where ph: "follows message_pipe_next NoHeader xs = Some ph"
    and rest: "follows message_pipe_next ph (WritePacket d # ys) \<noteq> None"
    by (auto simp: follows_append split: option.splits)
  from rest obtain ph' where "message_pipe_next ph (WritePacket d) = Some ph'"
    and ys: "follows message_pipe_next ph' ys \<noteq> None"
    by (auto split: option.splits)
  then have sent: "ph = HeaderSent" "ph' = HeaderSent"
    using message_pipe_next_packet by blast+
  from ph sent(1) have "\<exists>lt. WriteHeader lt \<in> set xs"
    using follows_message_reaches_sent [of xs] by simp
  moreover from ys sent(2) have "\<forall>lt. WriteHeader lt \<notin> set ys"
    using follows_message_sent [of ys] by auto
  ultimately show ?thesis by simp
qed

lemma message_pipe_single_header:
  assumes "follows message_pipe_next NoHeader (xs @ WriteHeader lt # ys) \<noteq> None"
  shows "(\<forall>lt'. WriteHeader lt' \<notin> set xs) \<and> (\<forall>d. WritePacket d \<notin> set xs)
         \<and> (\<forall>lt'. WriteHeader lt' \<notin> set ys)"
proof -
  from assms obtain ph where ph: "follows message_pipe_next NoHeader xs = Some ph"
    and rest: "follows message_pipe_next ph (WriteHeader lt # ys) \<noteq> None"
    by (auto simp: follows_append split: option.splits)
  from rest obtain ph' where "message_pipe_next ph (WriteHeader lt) = Some ph'"
    and ys: "follows message_pipe_next ph' ys \<noteq> None"
    by (auto split: option.splits)
  then have sent: "ph = NoHeader" "ph' = HeaderSent"
    using message_pipe_next_header by blast+
  from ph sent(1) have "(\<forall>lt'. WriteHeader lt' \<notin> set xs) \<and> (\<forall>d. WritePacket d \<notin> set xs)"
    using follows_message_fresh [of xs] by simp
  moreover from ys sent(2) have "\<forall>lt'. WriteHeader lt' \<notin> set ys"
    using follows_message_sent [of ys] by auto
  ultimately show ?thesis by simp
qed

lemma release_next_after_join:
  "follows release_next AfterJoin es \<noteq> None \<Longrightarrow>
     es = [] \<or> es = [Unlink] \<or> es = [LogError]"
proof (cases es)
  case Nil
  then show ?thesis by simp
next
  case (Cons e es')
  assume "follows release_next AfterJoin es \<noteq> None"
  then show ?thesis
    unfolding Cons by (cases e; cases es') (auto split: option.splits)
qed

lemma follows_release_before:
  "follows release_next ph xs = Some BeforeJoin \<Longrightarrow>
     ph = BeforeJoin \<and> Joined \<notin> set xs \<and> Unlink \<notin> set xs"
proof (induction xs arbitrary: ph)
  case Nil
  then show ?case by simp
next
  case (Cons e xs)
  then show ?case
    by (cases ph; cases e) (auto split: option.splits)
qed

lemma release_order:
  assumes "follows release_next BeforeJoin (xs @ Joined # ys) \<noteq> None"
  shows "Joined \<notin> set xs \<and> Unlink \<notin> set xs \<and> (ys = [] \<or> ys = [Unlink] \<or> ys = [LogError])"
proof -
  from assms obtain ph where ph: "follows release_next BeforeJoin xs = Some ph"
    and rest: "follows release_next ph (Joined # ys) \<noteq> None"
    by (auto simp: follows_append split: option.splits)
  from rest obtain ph' where nxt: "release_next ph Joined = Some ph'"
    and ys: "follows release_next ph' ys \<noteq> None"
    by (auto split: option.splits)
  from nxt have before: "ph = BeforeJoin" and after: "ph' = AfterJoin"
    by (cases ph; simp)+
  from ph before have "Joined \<notin> set xs \<and> Unlink \<notin> set xs"
    using follows_release_before [of BeforeJoin xs] by simp
  moreover from ys after have "ys = [] \<or> ys = [Unlink] \<or> ys = [LogError]"
    using release_next_after_join by simp
  ultimately show ?thesis by simp
qed

subsection \<open>The invariants hold in every execution\<close>

lemma header_inv_linux_init: "header_inv_linux (FifoLinux_init lt)"
  by (simp add: header_inv_linux_def FifoLinux_init_def)

lemma header_inv_windows_init: "header_inv_windows (FifoWindows_init lt)"
  by (simp add: header_inv_windows_def FifoWindows_init_def)

lemma header_inv_linux_accepts:
  "header_inv_linux c \<Longrightarrow> follows path_pipe_next NoHeader (effects c) \<noteq> None"
  by (auto simp: header_inv_linux_def Let_def split: if_splits)

lemma header_inv_windows_accepts:
  "header_inv_windows c \<Longrightarrow> follows message_pipe_next NoHeader (effects c) \<noteq> None"
  by (auto simp: header_inv_windows_def Let_def split: if_splits)

lemma release_inv_init: "release_inv (FifoLinux_init lt)"
  by (simp add: release_inv_def FifoLinux_init_def)

lemma release_inv_exec: "release_inv (FifoLinux_exec sched (FifoLinux_init lt))"
  by (rule FifoLinux_exec_invariant [where P = release_inv])
     (simp_all add: release_inv_step release_inv_init)

lemma release_log_inv_init: "release_log_inv (FifoLinux_init lt)"
  by (simp add: release_log_inv_def FifoLinux_init_def)

lemma release_log_inv_exec: "release_log_inv (FifoLinux_exec sched (FifoLinux_init lt))"
  by (rule FifoLinux_exec_invariant [where P = release_log_inv])
     (simp_all add: release_log_inv_step release_log_inv_init)

lemma alive_inv_init: "alive_inv (FifoLinux_init lt)"
  by (simp add: alive_inv_def FifoLinux_init_def)

lemma alive_inv_exec: "alive_inv (FifoLinux_exec sched (FifoLinux_init lt))"
  by (rule FifoLinux_exec_invariant [where P = alive_inv])
     (simp_all add: alive_inv_step alive_inv_init)

subsection \<open>The global header\<close>

text \<open>
  Claim C3, as stated: in every execution the header is written exactly once, and never
  twice. On the path-based pipe the header flag is cleared only after the header's write
  and flush have both returned, so a flush that fails with a broken pipe makes the next
  iteration write the header again: in the first execution below the worker opens the
  pipe, finds the frame \<open>[1]\<close>, writes the header, fails to flush it, and on the next
  iteration writes the header a second time before the record. In the second execution
  no frame is ever submitted and the session ends, by \<open>stop\<close>, with no header written.
\<close>

theorem header_written_twice_counterexample:
  "effects (FifoLinux_exec
      (replicate 5 (Worker Ok) @ [AddData [1]] @ replicate 4 (Worker Ok) @ [Worker Fails]
       @ replicate 11 (Worker Ok))
      (FifoLinux_init 0))
     = [WriteHeader (Some 0), WriteHeader (Some 0), Flush, WritePacket [1], Flush]
   \<and> effects (FifoLinux_exec
      (replicate 7 (Worker Ok) @ replicate 3 (Stopper Removed) @ [Worker Ok]
       @ replicate 2 (Stopper Removed))
      (FifoLinux_init 0))
     = [Sleep, Print, Joined, Unlink]"
  by code_simp

text \<open>
  Claim C3, amended: in every execution of a worker, whatever the producer, the stopping
  thread and the pipe do, a record is written only after the header has been written
  (on the path-based pipe: written and flushed), and from then on the header is never
  written again: every later write is a record. On the message pipe the header is written
  at most once. On the path-based pipe the header is written again as long as no header
  write has been followed by a successful flush. No header is written when no frame is
  drained. The two automata say this of the whole effect log; \<open>path_pipe_order\<close>,
  \<open>message_pipe_order\<close> and \<open>message_pipe_single_header\<close> spell out what their
  acceptance means.
\<close>

theorem header_precedes_records:
  "follows path_pipe_next NoHeader (effects (FifoLinux_exec sched (FifoLinux_init lt))) \<noteq> None
   \<and> follows message_pipe_next NoHeader
        (effects (FifoWindows_exec wsched (FifoWindows_init wlt))) \<noteq> None"
proof
  have "header_inv_linux (FifoLinux_exec sched (FifoLinux_init lt))"
    by (rule FifoLinux_exec_invariant [where P = header_inv_linux])
       (simp_all add: header_inv_linux_step header_inv_linux_init)
  then show "follows path_pipe_next NoHeader
      (effects (FifoLinux_exec sched (FifoLinux_init lt))) \<noteq> None"
    by (rule header_inv_linux_accepts)
next
  have "header_inv_windows (FifoWindows_exec wsched (FifoWindows_init wlt))"
    by (rule FifoWindows_exec_invariant [where P = header_inv_windows])
       (simp_all add: header_inv_windows_step header_inv_windows_init)
  then show "follows message_pipe_next NoHeader
      (effects (FifoWindows_exec wsched (FifoWindows_init wlt))) \<noteq> None"
    by (rule header_inv_windows_accepts)
qed

subsection \<open>Stopping the path-based pipe\<close>

text \<open>
  Claim C5, as stated: when the removal of the pipe file fails because the file is
  already absent, the failure is reported and goes no further. The code logs the error
  and then calls \<open>sys.exit(0)\<close>: \<open>SystemExit\<close> is raised in the thread that called
  \<open>stop\<close>, and \<open>stop\<close> does not return to its caller. Below, a session in which no
  frame is submitted: the worker sleeps once, \<open>stop\<close> sets the flag, the worker returns
  and is joined, \<open>os.remove\<close> finds the file absent, the error is logged and \<open>stop\<close>
  ends in \<open>SystemExit\<close>; further steps of the stopping thread change nothing.
\<close>

theorem stop_exits_on_absent_file_counterexample:
  "stop_at (FifoLinux_exec
      (replicate 7 (Worker Ok) @ replicate 3 (Stopper Removed) @ [Worker Ok]
       @ [Stopper Removed, Stopper FileNotFound, Stopper Removed, Stopper Removed])
      (FifoLinux_init 0)) = StopExit 0
   \<and> effects (FifoLinux_exec
      (replicate 7 (Worker Ok) @ replicate 3 (Stopper Removed) @ [Worker Ok]
       @ [Stopper Removed, Stopper FileNotFound, Stopper Removed, Stopper Removed])
      (FifoLinux_init 0)) = [Sleep, Print, Joined, LogError]
   \<and> stop_at (FifoLinux_exec
      (replicate 7 (Worker Ok) @ replicate 3 (Stopper Removed) @ [Worker Ok]
       @ [Stopper Removed, Stopper FileNotFound, Stopper Removed, Stopper Removed]
       @ replicate 3 (Stopper Removed))
      (FifoLinux_init 0)) = StopExit 0"
  by code_simp

text \<open>
  Claim C5, amended: \<open>FifoLinux.stop\<close> sets the cancellation flag, then joins the
  worker, and only after the join removes the pipe file: in every execution, whenever
  \<open>stop\<close> has got past its \<open>join\<close> the worker thread has ended, no effect of the
  worker follows the join in the log (\<open>release_order\<close>), and \<open>stop\<close> has returned
  only with the removal of the file as the last effect, directly after the join. When
  \<open>os.remove\<close> finds the file absent, the error is logged and \<open>stop\<close> ends with
  \<open>sys.exit(0)\<close>: \<open>SystemExit\<close> with status 0 is raised and \<open>stop\<close> never returns,
  whatever happens afterwards.
\<close>

theorem stop_joins_before_release:
  fixes sched sched' :: "event list" and lt :: int
  defines "E \<equiv> FifoLinux_exec sched (FifoLinux_init lt)"
  shows "follows release_next BeforeJoin (effects E) \<noteq> None
   \<and> (past_join (stop_at E) \<longrightarrow> run_ended (run_at E))
   \<and> (stop_at E = StopReturned \<longrightarrow> take 2 (rev (effects E)) = [Unlink, Joined])
   \<and> (stop_at E = StopExit n \<longrightarrow> n = 0 \<and> take 2 (rev (effects E)) = [LogError, Joined])
   \<and> (stop_at c = S86 \<longrightarrow>
        FifoLinux_exec [Stopper r1, Stopper r2, Stopper r3] c
          = c\<lparr>fifo_recv_cancel := True, fifo_data := [], stop_at := S89,
               effects := effects c @ [Print]\<rparr>)
   \<and> (stop_at c = S91 \<longrightarrow>
        FifoLinux_exec [Stopper Removed] c
          = c\<lparr>stop_at := StopReturned, effects := effects c @ [Unlink]\<rparr>
        \<and> FifoLinux_exec [Stopper FileNotFound, Stopper r2, Stopper r3] c
          = c\<lparr>stop_at := StopExit 0, effects := effects c @ [LogError]\<rparr>
        \<and> stop_at (FifoLinux_exec (Stopper FileNotFound # sched') c) \<noteq> StopReturned)"
proof -
  have inv: "release_inv E" unfolding E_def by (rule release_inv_exec)
  have log: "release_log_inv E" unfolding E_def by (rule release_log_inv_exec)
  have 1: "follows release_next BeforeJoin (effects E) \<noteq> None"
    using inv by (auto simp: release_inv_def Let_def split: if_splits)
  have 2: "past_join (stop_at E) \<longrightarrow> run_ended (run_at E)"
    using log by (simp add: release_log_inv_def)
  have 3: "stop_at E = StopReturned \<longrightarrow> take 2 (rev (effects E)) = [Unlink, Joined]"
    using log by (simp add: release_log_inv_def)
  have 4: "stop_at E = StopExit n \<longrightarrow> n = 0 \<and> take 2 (rev (effects E)) = [LogError, Joined]"
    using log by (simp add: release_log_inv_def)
  have 5: "stop_at c = S86 \<longrightarrow>
        FifoLinux_exec [Stopper r1, Stopper r2, Stopper r3] c
          = c\<lparr>fifo_recv_cancel := True, fifo_data := [], stop_at := S89,
               effects := effects c @ [Print]\<rparr>"
    by (simp add: FifoLinux_stop_step_def emit_def)
  have 6: "stop_at c = S91 \<longrightarrow>
        FifoLinux_exec [Stopper Removed] c
          = c\<lparr>stop_at := StopReturned, effects := effects c @ [Unlink]\<rparr>"
    by (simp add: FifoLinux_stop_step_def emit_def)
  have 7: "stop_at c = S91 \<longrightarrow>
        FifoLinux_exec [Stopper FileNotFound, Stopper r2, Stopper r3] c
          = c\<lparr>stop_at := StopExit 0, effects := effects c @ [LogError]\<rparr>"
    by (simp add: FifoLinux_stop_step_def emit_def)
  have 8: "stop_at c = S91 \<longrightarrow>
        stop_at (FifoLinux_exec (Stopper FileNotFound # sched') c) \<noteq> StopReturned"
  proof
    assume "stop_at c = S91"
    then have "exiting (stop_at (FifoLinux_step (Stopper FileNotFound) c))"
      by (simp add: FifoLinux_stop_step_def)
    then have "exiting (stop_at (FifoLinux_exec sched' (FifoLinux_step (Stopper FileNotFound) c)))"
      by (rule exiting_exec)
    then show "stop_at (FifoLinux_exec (Stopper FileNotFound # sched') c) \<noteq> StopReturned"
      by auto
  qed
  from 1 2 3 4 5 6 7 8 show ?thesis by blast
qed

theorem stop_joins_before_release_witness:
  "stop_at (FifoLinux_exec
      (replicate 7 (Worker Ok) @ replicate 3 (Stopper Removed) @ [Worker Ok]
       @ [Stopper Removed, Stopper Removed])
      (FifoLinux_init 0)) = StopReturned
   \<and> run_ended (run_at (FifoLinux_exec
      (replicate 7 (Worker Ok) @ replicate 3 (Stopper Removed) @ [Worker Ok]
       @ [Stopper Removed, Stopper Removed])
      (FifoLinux_init 0)))
   \<and> take 2 (rev (effects (FifoLinux_exec
      (replicate 7 (Worker Ok) @ replicate 3 (Stopper Removed) @ [Worker Ok]
       @ [Stopper Removed, Stopper Removed])
      (FifoLinux_init 0)))) = [Unlink, Joined]
   \<and> stop_at (FifoLinux_exec
      (replicate 7 (Worker Ok) @ replicate 3 (Stopper Removed) @ [Worker Ok]
       @ [Stopper Removed, Stopper FileNotFound, Stopper Removed, Stopper Removed])
      (FifoLinux_init 0)) = StopExit 0
   \<and> take 2 (rev (effects (FifoLinux_exec
      (replicate 7 (Worker Ok) @ replicate 3 (Stopper Removed) @ [Worker Ok]
       @ [Stopper Removed, Stopper FileNotFound, Stopper Removed, Stopper Removed])
      (FifoLinux_init 0)))) = [LogError, Joined]
   \<and> stop_at (FifoLinux_init 0) = S86
   \<and> FifoLinux_exec [Stopper Removed, Stopper Removed, Stopper Removed] (FifoLinux_init 0)
       = (FifoLinux_init 0)\<lparr>fifo_recv_cancel := True, fifo_data := [], stop_at := S89,
            effects := effects (FifoLinux_init 0) @ [Print]\<rparr>
   \<and> stop_at (FifoLinux_exec
      (replicate 7 (Worker Ok) @ replicate 3 (Stopper Removed) @ [Worker Ok, Stopper Removed])
      (FifoLinux_init 0)) = S91
   \<and> effects (FifoLinux_exec [Stopper Removed]
        (FifoLinux_exec
          (replicate 7 (Worker Ok) @ replicate 3 (Stopper Removed) @ [Worker Ok, Stopper Removed])
          (FifoLinux_init 0))) = [Sleep, Print, Joined, Unlink]
   \<and> effects (FifoLinux_exec [Stopper FileNotFound, Stopper Removed, Stopper Removed]
        (FifoLinux_exec
          (replicate 7 (Worker Ok) @ replicate 3 (Stopper Removed) @ [Worker Ok, Stopper Removed])
          (FifoLinux_init 0))) = [Sleep, Print, Joined, LogError]
   \<and> stop_at (FifoLinux_exec (Stopper FileNotFound # replicate 5 (Stopper Removed))
        (FifoLinux_exec
          (replicate 7 (Worker Ok) @ replicate 3 (Stopper Removed) @ [Worker Ok, Stopper Removed])
          (FifoLinux_init 0))) \<noteq> StopReturned"
proof -
  let ?r = "replicate 7 (Worker Ok) @ replicate 3 (Stopper Removed) @ [Worker Ok]
       @ [Stopper Removed, Stopper Removed]"
  let ?x = "replicate 7 (Worker Ok) @ replicate 3 (Stopper Removed) @ [Worker Ok]
       @ [Stopper Removed, Stopper FileNotFound, Stopper Removed, Stopper Removed]"
  let ?c = "FifoLinux_exec
          (replicate 7 (Worker Ok) @ replicate 3 (Stopper Removed) @ [Worker Ok, Stopper Removed])
          (FifoLinux_init 0)"
  have a: "stop_at (FifoLinux_exec ?r (FifoLinux_init 0)) = StopReturned" by code_simp
  have b: "stop_at (FifoLinux_exec ?x (FifoLinux_init 0)) = StopExit 0" by code_simp
  have c: "stop_at (FifoLinux_init 0) = S86" by code_simp
  have d: "stop_at ?c = S91" by code_simp
  have e: "effects ?c = [Sleep, Print, Joined]" by code_simp
  have pj: "past_join (stop_at (FifoLinux_exec ?r (FifoLinux_init 0)))"
    by code_simp
  note t1 = stop_joins_before_release [where sched = ?r and lt = 0 and c = "FifoLinux_init 0"
      and ?r1.0 = Removed and ?r2.0 = Removed and ?r3.0 = Removed]
  note t2 = stop_joins_before_release [where sched = ?x and lt = 0 and n = 0 and c = ?c
      and ?r2.0 = Removed and ?r3.0 = Removed and sched' = "replicate 5 (Stopper Removed)"]
  from t1 pj have 1: "run_ended (run_at (FifoLinux_exec ?r (FifoLinux_init 0)))"
    by blast
  from t1 a have 2: "take 2 (rev (effects (FifoLinux_exec ?r (FifoLinux_init 0))))
      = [Unlink, Joined]"
    by blast
  from t2 b have 3: "take 2 (rev (effects (FifoLinux_exec ?x (FifoLinux_init 0))))
      = [LogError, Joined]"
    by blast
  from t1 c have 4: "FifoLinux_exec [Stopper Removed, Stopper Removed, Stopper Removed]
      (FifoLinux_init 0)
       = (FifoLinux_init 0)\<lparr>fifo_recv_cancel := True, fifo_data := [], stop_at := S89,
            effects := effects (FifoLinux_init 0) @ [Print]\<rparr>"
    by blast
  from t2 d have "FifoLinux_exec [Stopper Removed] ?c
          = ?c\<lparr>stop_at := StopReturned, effects := effects ?c @ [Unlink]\<rparr>"
    by blast
  then have "effects (FifoLinux_exec [Stopper Removed] ?c) = effects ?c @ [Unlink]"
    by simp
  with e have 5: "effects (FifoLinux_exec [Stopper Removed] ?c) = [Sleep, Print, Joined, Unlink]"
    by simp
  from t2 d have "FifoLinux_exec [Stopper FileNotFound, Stopper Removed, Stopper Removed] ?c
          = ?c\<lparr>stop_at := StopExit 0, effects := effects ?c @ [LogError]\<rparr>"
    by blast
  then have "effects (FifoLinux_exec [Stopper FileNotFound, Stopper Removed, Stopper Removed] ?c)
      = effects ?c @ [LogError]"
    by simp
  with e have 6: "effects (FifoLinux_exec [Stopper FileNotFound, Stopper Removed, Stopper Removed] ?c)
      = [Sleep, Print, Joined, LogError]"
    by simp
  from t2 d have 7: "stop_at (FifoLinux_exec (Stopper FileNotFound # replicate 5 (Stopper Removed)) ?c)
      \<noteq> StopReturned"
    by blast
  from a 1 2 b 3 c 4 d 5 6 7 show ?thesis
    by blast
qed

subsection \<open>Submitting a frame\<close>




subsection \<open>A broken pipe\<close>

text \<open>
  Claim C8, as stated: the frame whose write failed is discarded and its data lost. The
  handler of \<open>BrokenPipeError\<close> does nothing, so the slot still holds the frame and
  \<open>last_packet\<close> is unchanged: the next iteration writes the same frame. Below, the
  worker has written and flushed the header and is at the write of the frame \<open>[1]\<close>;
  the write fails, nothing is logged, and eight steps later the frame \<open>[1]\<close> has been
  written and flushed.
\<close>

theorem failed_write_is_retried_counterexample:
  "run_at (FifoLinux_exec
      (replicate 5 (Worker Ok) @ [AddData [1]] @ replicate 6 (Worker Ok))
      (FifoLinux_init 0)) = L75
   \<and> effects (FifoLinux_exec
      (replicate 5 (Worker Ok) @ [AddData [1]] @ replicate 6 (Worker Ok) @ [Worker Fails])
      (FifoLinux_init 0)) = [WriteHeader (Some 0), Flush]
   \<and> effects (FifoLinux_exec
      (replicate 5 (Worker Ok) @ [AddData [1]] @ replicate 6 (Worker Ok) @ [Worker Fails]
       @ replicate 8 (Worker Ok))
      (FifoLinux_init 0)) = [WriteHeader (Some 0), Flush, WritePacket [1], Flush]"
  by code_simp

text \<open>
  Claim C8, amended: on the path-based pipe a write or flush that fails with a broken
  pipe never ends the drain loop. The exception is swallowed and the state is left as it
  was (the frame stays in the slot, so the same frame is attempted again on the next
  iteration unless a newer submission has replaced it), and control returns to the loop
  test. In every execution \<open>run\<close> returns only with the cancellation flag set, and the
  worker thread dies only when the pipe could not be opened.
\<close>

theorem broken_pipe_is_tolerated:
  "(run_at (FifoLinux_exec sched (FifoLinux_init lt)) = RunReturned \<longrightarrow>
      fifo_recv_cancel (FifoLinux_exec sched (FifoLinux_init lt)))
   \<and> (run_at (FifoLinux_exec sched (FifoLinux_init lt)) = RunDied \<longrightarrow>
      fifo_worker (FifoLinux_exec sched (FifoLinux_init lt)) = None)
   \<and> (fifo_worker c \<noteq> None \<and> fifo_packet c \<noteq> None
       \<and> (run_at c = L71 \<or> run_at c = L72 \<or> run_at c = L75 \<or> run_at c = L76) \<longrightarrow>
      FifoLinux_step (Worker Fails) c = c\<lparr>run_at := L66\<rparr>)"
proof (intro conjI impI)
  have inv: "alive_inv (FifoLinux_exec sched (FifoLinux_init lt))"
    by (rule alive_inv_exec)
  {
    assume "run_at (FifoLinux_exec sched (FifoLinux_init lt)) = RunReturned"
    with inv show "fifo_recv_cancel (FifoLinux_exec sched (FifoLinux_init lt))"
      by (simp add: alive_inv_def)
  }
  {
    assume "run_at (FifoLinux_exec sched (FifoLinux_init lt)) = RunDied"
    with inv show "fifo_worker (FifoLinux_exec sched (FifoLinux_init lt)) = None"
      by (simp add: alive_inv_def)
  }
  {
    assume "fifo_worker c \<noteq> None \<and> fifo_packet c \<noteq> None
       \<and> (run_at c = L71 \<or> run_at c = L72 \<or> run_at c = L75 \<or> run_at c = L76)"
    then show "FifoLinux_step (Worker Fails) c = c\<lparr>run_at := L66\<rparr>"
      by (auto simp: FifoLinux_run_step_def)
  }
qed

theorem broken_pipe_is_tolerated_witness:
  "run_at (FifoLinux_exec
      (replicate 4 (Worker Ok) @ [AddData [1]] @ replicate 7 (Worker Ok) @ [Worker Fails]
       @ replicate 3 (Stopper Removed) @ [Worker Ok])
      (FifoLinux_init 0)) = RunReturned
   \<and> fifo_recv_cancel (FifoLinux_exec
      (replicate 4 (Worker Ok) @ [AddData [1]] @ replicate 7 (Worker Ok) @ [Worker Fails]
       @ replicate 3 (Stopper Removed) @ [Worker Ok])
      (FifoLinux_init 0))
   \<and> run_at (FifoLinux_exec
      ([Worker Ok, Worker Ok, Worker Ok, Worker Fails, AddData [1]] @ replicate 5 (Worker Ok))
      (FifoLinux_init 0)) = RunDied
   \<and> fifo_worker (FifoLinux_exec
      ([Worker Ok, Worker Ok, Worker Ok, Worker Fails, AddData [1]] @ replicate 5 (Worker Ok))
      (FifoLinux_init 0)) = None
   \<and> run_at (FifoLinux_exec (replicate 4 (Worker Ok) @ [AddData [1]] @ replicate 7 (Worker Ok))
        (FifoLinux_init 0)) = L75
   \<and> FifoLinux_step (Worker Fails)
        (FifoLinux_exec (replicate 4 (Worker Ok) @ [AddData [1]] @ replicate 7 (Worker Ok))
           (FifoLinux_init 0))
       = (FifoLinux_exec (replicate 4 (Worker Ok) @ [AddData [1]] @ replicate 7 (Worker Ok))
           (FifoLinux_init 0))\<lparr>run_at := L66\<rparr>"
proof -
  let ?s = "replicate 4 (Worker Ok) @ [AddData [1]] @ replicate 7 (Worker Ok) @ [Worker Fails]
       @ replicate 3 (Stopper Removed) @ [Worker Ok]"
  let ?d = "[Worker Ok, Worker Ok, Worker Ok, Worker Fails, AddData [1]] @ replicate 5 (Worker Ok)"
  let ?c = "FifoLinux_exec (replicate 4 (Worker Ok) @ [AddData [1]] @ replicate 7 (Worker Ok))
           (FifoLinux_init 0)"
  have h1: "run_at (FifoLinux_exec ?s (FifoLinux_init 0)) = RunReturned" by code_simp
  have h2: "run_at (FifoLinux_exec ?d (FifoLinux_init 0)) = RunDied" by code_simp
  have h3: "fifo_worker ?c \<noteq> None" by code_simp
  have h4: "fifo_packet ?c \<noteq> None" by code_simp
  have h5: "run_at ?c = L75" by code_simp
  note t1 = broken_pipe_is_tolerated [where sched = ?s and lt = 0 and c = ?c]
  note t2 = broken_pipe_is_tolerated [where sched = ?d and lt = 0 and c = ?c]
  from t1 h1 have "fifo_recv_cancel (FifoLinux_exec ?s (FifoLinux_init 0))"
    by blast
  moreover from t2 h2 have "fifo_worker (FifoLinux_exec ?d (FifoLinux_init 0)) = None"
    by blast
  moreover from t1 h3 h4 h5 have "FifoLinux_step (Worker Fails) ?c = ?c\<lparr>run_at := L66\<rparr>"
    by blast
  ultimately show ?thesis
    using h1 h2 h5 by blast
qed

subsection \<open>A frame equal to the last one\<close>

text \<open>
  Claim C9, as stated: a submission identical to the most recently written frame is never
  written. The comparison with \<open>last_packet\<close> and the write are separate statements and
  each reads the slot anew, with no lock held. Below, the frame \<open>[1]\<close> has been written
  and recorded in \<open>last_packet\<close>; the frame \<open>[2]\<close> is submitted and passes the
  comparison; before the write the producer submits \<open>[1]\<close> again, and the worker
  writes \<open>[1]\<close> a second time.
\<close>

theorem duplicate_written_after_comparison_counterexample:
  "last_packet (FifoLinux_exec
      (replicate 4 (Worker Ok) @ [AddData [1]] @ replicate 11 (Worker Ok) @ [AddData [2]]
       @ replicate 3 (Worker Ok))
      (FifoLinux_init 0)) = Some [1]
   \<and> run_at (FifoLinux_exec
      (replicate 4 (Worker Ok) @ [AddData [1]] @ replicate 11 (Worker Ok) @ [AddData [2]]
       @ replicate 3 (Worker Ok))
      (FifoLinux_init 0)) = L70
   \<and> effects (FifoLinux_exec
      (replicate 4 (Worker Ok) @ [AddData [1]] @ replicate 11 (Worker Ok) @ [AddData [2]]
       @ replicate 3 (Worker Ok) @ [AddData [1]] @ replicate 5 (Worker Ok))
      (FifoLinux_init 0))
     = [WriteHeader (Some 0), Flush, WritePacket [1], Flush, WritePacket [1], Flush]"
  by code_simp

text \<open>
  Claim C9, amended: the drain loop goes on to write a pending frame only when its
  comparison finds the slot different from \<open>last_packet\<close>. Consequently a frame
  byte-identical to \<open>last_packet\<close> that is in the slot while the worker is not in the
  middle of an iteration is never written to the pipe and stays in the slot, however
  often the same frame is submitted again, until a different submission overwrites it
  (on the message pipe: or \<open>stop\<close> clears the slot). Consecutive duplicate frames are
  suppressed.
\<close>

theorem duplicate_frame_is_suppressed:
  "(last_packet c = Some d \<and> fifo_packet c = Some d \<and> idle_pc (run_at c)
     \<and> submits_only d sched \<longrightarrow>
      fifo_packet (FifoLinux_exec sched c) = Some d
      \<and> filter is_pipe_io (effects (FifoLinux_exec sched c)) = filter is_pipe_io (effects c))
   \<and> (last_packet w = Some d \<and> fifo_packet w = Some d \<and> idle_wpc (run_at w)
     \<and> submits_only d wsched \<and> no_stop wsched \<longrightarrow>
      fifo_packet (FifoWindows_exec wsched w) = Some d
      \<and> filter is_pipe_io (effects (FifoWindows_exec wsched w))
          = filter is_pipe_io (effects w))
   \<and> (run_at c' = L69 \<longrightarrow>
      FifoLinux_run_step r c'
        = c'\<lparr>run_at := (if fifo_packet c' \<noteq> last_packet c' then L70 else L66)\<rparr>)
   \<and> (run_at w' = W144 \<longrightarrow>
      FifoWindows_run_step r w'
        = w'\<lparr>run_at := (if fifo_packet w' \<noteq> last_packet w' then W145 else W142)\<rparr>)"
proof (intro conjI impI)
  assume "run_at c' = L69"
  then show "FifoLinux_run_step r c'
        = c'\<lparr>run_at := (if fifo_packet c' \<noteq> last_packet c' then L70 else L66)\<rparr>"
    by (simp add: FifoLinux_run_step_def)
next
  assume "run_at w' = W144"
  then show "FifoWindows_run_step r w'
        = w'\<lparr>run_at := (if fifo_packet w' \<noteq> last_packet w' then W145 else W142)\<rparr>"
    by (simp add: FifoWindows_run_step_def)
next
  assume a: "last_packet c = Some d \<and> fifo_packet c = Some d \<and> idle_pc (run_at c)
     \<and> submits_only d sched"
  then have "dup_inv d (filter is_pipe_io (effects c)) c"
    by (simp add: dup_inv_def)
  with a have inv: "dup_inv d (filter is_pipe_io (effects c)) (FifoLinux_exec sched c)"
    by (simp add: dup_inv_exec)
  from inv show "fifo_packet (FifoLinux_exec sched c) = Some d"
    by (simp add: dup_inv_def)
  from inv show "filter is_pipe_io (effects (FifoLinux_exec sched c))
      = filter is_pipe_io (effects c)"
    by (simp add: dup_inv_def)
next
  assume a: "last_packet w = Some d \<and> fifo_packet w = Some d \<and> idle_wpc (run_at w)
     \<and> submits_only d wsched \<and> no_stop wsched"
  then have "dup_inv_windows d (filter is_pipe_io (effects w)) w"
    by (simp add: dup_inv_windows_def)
  with a have inv: "dup_inv_windows d (filter is_pipe_io (effects w))
      (FifoWindows_exec wsched w)"
    by (simp add: dup_inv_windows_exec)
  from inv show "fifo_packet (FifoWindows_exec wsched w) = Some d"
    by (simp add: dup_inv_windows_def)
  from inv show "filter is_pipe_io (effects (FifoWindows_exec wsched w))
      = filter is_pipe_io (effects w)"
    by (simp add: dup_inv_windows_def)
qed

theorem duplicate_frame_is_suppressed_witness:
  "last_packet (FifoLinux_exec
       (replicate 4 (Worker Ok) @ [AddData [1]] @ replicate 11 (Worker Ok) @ [AddData [1]])
       (FifoLinux_init 0)) = Some [1]
   \<and> effects (FifoLinux_exec
       (replicate 4 (Worker Ok) @ [AddData [1]] @ replicate 11 (Worker Ok) @ [AddData [1]])
       (FifoLinux_init 0)) = [WriteHeader (Some 0), Flush, WritePacket [1], Flush]
   \<and> fifo_packet (FifoLinux_exec
       (replicate 9 (Worker Ok) @ [AddData [1], Stopper Removed])
       (FifoLinux_exec
         (replicate 4 (Worker Ok) @ [AddData [1]] @ replicate 11 (Worker Ok) @ [AddData [1]])
         (FifoLinux_init 0))) = Some [1]
   \<and> filter is_pipe_io (effects (FifoLinux_exec
       (replicate 9 (Worker Ok) @ [AddData [1], Stopper Removed])
       (FifoLinux_exec
         (replicate 4 (Worker Ok) @ [AddData [1]] @ replicate 11 (Worker Ok) @ [AddData [1]])
         (FifoLinux_init 0))))
      = [WriteHeader (Some 0), Flush, WritePacket [1], Flush]
   \<and> last_packet (FifoWindows_exec
       (replicate 6 (Worker Ok) @ [AddData [1]] @ replicate 9 (Worker Ok) @ [AddData [1]])
       (FifoWindows_init 0)) = Some [1]
   \<and> fifo_packet (FifoWindows_exec
       (replicate 9 (Worker Ok) @ [AddData [1]])
       (FifoWindows_exec
         (replicate 6 (Worker Ok) @ [AddData [1]] @ replicate 9 (Worker Ok) @ [AddData [1]])
         (FifoWindows_init 0))) = Some [1]
   \<and> filter is_pipe_io (effects (FifoWindows_exec
       (replicate 9 (Worker Ok) @ [AddData [1]])
       (FifoWindows_exec
         (replicate 6 (Worker Ok) @ [AddData [1]] @ replicate 9 (Worker Ok) @ [AddData [1]])
         (FifoWindows_init 0))))
      = [WriteHeader None, WritePacket [1]]
   \<and> run_at (FifoLinux_exec
       (replicate 4 (Worker Ok) @ [AddData [1]] @ replicate 11 (Worker Ok) @ [AddData [1]]
        @ replicate 2 (Worker Ok))
       (FifoLinux_init 0)) = L69
   \<and> run_at (FifoLinux_exec
       (replicate 4 (Worker Ok) @ [AddData [1]] @ replicate 11 (Worker Ok) @ [AddData [1]]
        @ replicate 3 (Worker Ok))
       (FifoLinux_init 0)) = L66
   \<and> run_at (FifoWindows_exec
       (replicate 6 (Worker Ok) @ [AddData [1]] @ replicate 9 (Worker Ok) @ [AddData [1]]
        @ replicate 2 (Worker Ok))
       (FifoWindows_init 0)) = W144"
proof -
  let ?c' = "FifoLinux_exec
       (replicate 4 (Worker Ok) @ [AddData [1]] @ replicate 11 (Worker Ok) @ [AddData [1]]
        @ replicate 2 (Worker Ok))
       (FifoLinux_init 0)"
  let ?w' = "FifoWindows_exec
       (replicate 6 (Worker Ok) @ [AddData [1]] @ replicate 9 (Worker Ok) @ [AddData [1]]
        @ replicate 2 (Worker Ok))
       (FifoWindows_init 0)"
  have p1: "run_at ?c' = L69" by code_simp
  have p2: "fifo_packet ?c' = last_packet ?c'" by code_simp
  have p3: "run_at ?w' = W144" by code_simp
  have p4: "FifoLinux_exec
       (replicate 4 (Worker Ok) @ [AddData [1]] @ replicate 11 (Worker Ok) @ [AddData [1]]
        @ replicate 3 (Worker Ok))
       (FifoLinux_init 0) = FifoLinux_run_step Ok ?c'" by code_simp
  let ?c = "FifoLinux_exec
       (replicate 4 (Worker Ok) @ [AddData [1]] @ replicate 11 (Worker Ok) @ [AddData [1]])
       (FifoLinux_init 0)"
  let ?s = "replicate 9 (Worker Ok) @ [AddData [1], Stopper Removed]"
  let ?w = "FifoWindows_exec
       (replicate 6 (Worker Ok) @ [AddData [1]] @ replicate 9 (Worker Ok) @ [AddData [1]])
       (FifoWindows_init 0)"
  let ?ws = "replicate 9 (Worker Ok) @ [AddData [1]]"
  have c1: "last_packet ?c = Some [1]" by code_simp
  have c2: "fifo_packet ?c = Some [1]" by code_simp
  have c3: "idle_pc (run_at ?c)" by code_simp
  have c4: "submits_only [1] ?s" by code_simp
  have c5: "effects ?c = [WriteHeader (Some 0), Flush, WritePacket [1], Flush]" by code_simp
  have w1: "last_packet ?w = Some [1]" by code_simp
  have w2: "fifo_packet ?w = Some [1]" by code_simp
  have w3: "idle_wpc (run_at ?w)" by code_simp
  have w4: "submits_only [1] ?ws" by code_simp
  have w5: "no_stop ?ws" by code_simp
  have w6: "filter is_pipe_io (effects ?w) = [WriteHeader None, WritePacket [1]]" by code_simp
  note t = duplicate_frame_is_suppressed [where c = ?c and d = "[1]" and sched = ?s
      and w = ?w and wsched = ?ws and c' = ?c' and w' = ?w' and r = Ok]
  from t p1 have "FifoLinux_run_step Ok ?c'
      = ?c'\<lparr>run_at := (if fifo_packet ?c' \<noteq> last_packet ?c' then L70 else L66)\<rparr>"
    by blast
  with p2 p4 have p5: "run_at (FifoLinux_exec
       (replicate 4 (Worker Ok) @ [AddData [1]] @ replicate 11 (Worker Ok) @ [AddData [1]]
        @ replicate 3 (Worker Ok))
       (FifoLinux_init 0)) = L66"
    by simp
  from t c1 c2 c3 c4 have l: "fifo_packet (FifoLinux_exec ?s ?c) = Some [1]"
    "filter is_pipe_io (effects (FifoLinux_exec ?s ?c)) = filter is_pipe_io (effects ?c)"
    by blast+
  from t w1 w2 w3 w4 w5 have r: "fifo_packet (FifoWindows_exec ?ws ?w) = Some [1]"
    "filter is_pipe_io (effects (FifoWindows_exec ?ws ?w)) = filter is_pipe_io (effects ?w)"
    by blast+
  from l(2) c5 have l2: "filter is_pipe_io (effects (FifoLinux_exec ?s ?c))
      = [WriteHeader (Some 0), Flush, WritePacket [1], Flush]"
    by simp
  from r(2) w6 have r2: "filter is_pipe_io (effects (FifoWindows_exec ?ws ?w))
      = [WriteHeader None, WritePacket [1]]"
    by simp
  from c1 c5 l(1) l2 w1 r(1) r2 p1 p5 p3 show ?thesis
    by blast
qed

subsection \<open>The empty frame\<close>

text \<open>
  Claim C10, as stated: an empty frame is never written and is the same as no frame. The
  test of the slot and the write are separate statements, each reading the slot anew.
  Below, the frame \<open>[1]\<close> has passed the test of the slot and the comparison (the worker
  is at line 70) when the empty frame is submitted: the worker writes the header, passes
  the empty frame to \<open>write\<close> and records it as \<open>last_packet\<close>.
\<close>

theorem empty_frame_is_written_counterexample:
  "run_at (FifoLinux_exec
      (replicate 4 (Worker Ok) @ [AddData [1]] @ replicate 3 (Worker Ok))
      (FifoLinux_init 0)) = L70
   \<and> effects (FifoLinux_exec
      (replicate 4 (Worker Ok) @ [AddData [1]] @ replicate 3 (Worker Ok) @ [AddData []]
       @ replicate 8 (Worker Ok))
      (FifoLinux_init 0)) = [WriteHeader (Some 0), Flush, WritePacket [], Flush]
   \<and> last_packet (FifoLinux_exec
      (replicate 4 (Worker Ok) @ [AddData [1]] @ replicate 3 (Worker Ok) @ [AddData []]
       @ replicate 8 (Worker Ok))
      (FifoLinux_init 0)) = Some []"
  by code_simp

text \<open>
  Claim C10, amended: an empty byte sequence that \<open>add_data\<close> submits while the worker
  is not in the middle of an iteration is indistinguishable from having no pending frame:
  under every schedule the execution has the same effects as the execution from the state
  with an empty slot, and the two final states differ at most in the slot, which holds
  the empty frame until a submission overwrites it. The test of the slot takes the empty
  frame for no frame, and the worker sleeps and returns to the loop test. When nothing but
  empty frames is ever submitted, no header and no record is written in any execution.
\<close>

theorem empty_frame_is_no_frame:
  "(idle_pc (run_at c) \<longrightarrow>
      effects (FifoLinux_exec sched (add_data [] c))
        = effects (FifoLinux_exec sched (c\<lparr>fifo_packet := None\<rparr>))
      \<and> FifoLinux_exec sched (c\<lparr>fifo_packet := None\<rparr>)
          = (FifoLinux_exec sched (add_data [] c))
              \<lparr>fifo_packet := fifo_packet (FifoLinux_exec sched (c\<lparr>fifo_packet := None\<rparr>))\<rparr>
      \<and> (fifo_packet (FifoLinux_exec sched (add_data [] c)) = Some []
          \<or> fifo_packet (FifoLinux_exec sched (add_data [] c))
              = fifo_packet (FifoLinux_exec sched (c\<lparr>fifo_packet := None\<rparr>))))
   \<and> (run_at c' = L68 \<and> fifo_packet c' = Some [] \<longrightarrow>
      FifoLinux_run_step r c' = c'\<lparr>run_at := L81\<rparr>
      \<and> FifoLinux_run_step r (c'\<lparr>run_at := L81\<rparr>)
          = c'\<lparr>run_at := L66, effects := effects c' @ [Sleep]\<rparr>)
   \<and> (submits_only [] sched' \<longrightarrow>
      filter is_pipe_io (effects (FifoLinux_exec sched' (FifoLinux_init lt))) = [])"
proof (intro conjI impI)
  assume idle: "idle_pc (run_at c)"
  let ?c1 = "add_data [] c" and ?c0 = "c\<lparr>fifo_packet := None\<rparr>"
  have "?c0 = ?c1\<lparr>fifo_packet := None\<rparr>"
    by (simp add: add_data_def)
  with idle have "empty_rel ?c1 ?c0"
    by (simp add: empty_rel_def add_data_def)
  then have rel: "empty_rel (FifoLinux_exec sched ?c1) (FifoLinux_exec sched ?c0)"
    by (rule empty_rel_exec)
  then consider
      (eq) "FifoLinux_exec sched ?c1 = FifoLinux_exec sched ?c0"
    | (slot) "FifoLinux_exec sched ?c0 = (FifoLinux_exec sched ?c1)\<lparr>fifo_packet := None\<rparr>"
        "fifo_packet (FifoLinux_exec sched ?c1) = Some []"
    by (auto simp: empty_rel_def)
  note cases = this
  show "effects (FifoLinux_exec sched ?c1) = effects (FifoLinux_exec sched ?c0)"
  proof (cases rule: cases)
    case eq
    then show ?thesis by simp
  next
    case slot
    show ?thesis by (subst slot(1)) simp
  qed
  show "FifoLinux_exec sched ?c0
          = (FifoLinux_exec sched ?c1)\<lparr>fifo_packet := fifo_packet (FifoLinux_exec sched ?c0)\<rparr>"
  proof (cases rule: cases)
    case eq
    then show ?thesis by simp
  next
    case slot
    have "fifo_packet (FifoLinux_exec sched ?c0) = None"
      by (subst slot(1)) simp
    with slot(1) show ?thesis by simp
  qed
  show "fifo_packet (FifoLinux_exec sched ?c1) = Some []
          \<or> fifo_packet (FifoLinux_exec sched ?c1) = fifo_packet (FifoLinux_exec sched ?c0)"
  proof (cases rule: cases)
    case eq
    then show ?thesis by simp
  next
    case slot
    then show ?thesis by simp
  qed
next
  assume a: "run_at c' = L68 \<and> fifo_packet c' = Some []"
  then show "FifoLinux_run_step r c' = c'\<lparr>run_at := L81\<rparr>"
    by (simp add: FifoLinux_run_step_def)
  show "FifoLinux_run_step r (c'\<lparr>run_at := L81\<rparr>)
          = c'\<lparr>run_at := L66, effects := effects c' @ [Sleep]\<rparr>"
    by (simp add: FifoLinux_run_step_def emit_def)
next
  assume a: "submits_only [] sched'"
  have "only_empty_inv (FifoLinux_init lt)"
    by (simp add: only_empty_inv_def FifoLinux_init_def)
  with a have "only_empty_inv (FifoLinux_exec sched' (FifoLinux_init lt))"
    by (simp add: only_empty_inv_exec)
  then show "filter is_pipe_io (effects (FifoLinux_exec sched' (FifoLinux_init lt))) = []"
    by (simp add: only_empty_inv_def)
qed

theorem empty_frame_is_no_frame_witness:
  "idle_pc (run_at (FifoLinux_exec (replicate 4 (Worker Ok) @ [AddData [1]]) (FifoLinux_init 0)))
   \<and> effects (FifoLinux_exec (replicate 6 (Worker Ok) @ [AddData [7]] @ replicate 12 (Worker Ok))
        (add_data [] (FifoLinux_exec (replicate 4 (Worker Ok) @ [AddData [1]]) (FifoLinux_init 0))))
      = effects (FifoLinux_exec
          (replicate 6 (Worker Ok) @ [AddData [7]] @ replicate 12 (Worker Ok))
          ((FifoLinux_exec (replicate 4 (Worker Ok) @ [AddData [1]]) (FifoLinux_init 0))
             \<lparr>fifo_packet := None\<rparr>))
   \<and> effects (FifoLinux_exec (replicate 6 (Worker Ok))
        (add_data [] (FifoLinux_exec (replicate 4 (Worker Ok) @ [AddData [1]]) (FifoLinux_init 0))))
      = [Sleep, Sleep]
   \<and> fifo_packet (FifoLinux_exec (replicate 6 (Worker Ok))
        (add_data [] (FifoLinux_exec (replicate 4 (Worker Ok) @ [AddData [1]]) (FifoLinux_init 0))))
      = Some []
   \<and> run_at (FifoLinux_exec (replicate 5 (Worker Ok) @ [AddData []]) (FifoLinux_init 0)) = L68
   \<and> run_at (FifoLinux_run_step Ok
        (FifoLinux_exec (replicate 5 (Worker Ok) @ [AddData []]) (FifoLinux_init 0))) = L81
   \<and> submits_only [] ([AddData []] @ replicate 9 (Worker Ok) @ [AddData []])
   \<and> filter is_pipe_io (effects (FifoLinux_exec
        ([AddData []] @ replicate 9 (Worker Ok) @ [AddData []]) (FifoLinux_init 0))) = []"
proof -
  let ?c = "FifoLinux_exec (replicate 4 (Worker Ok) @ [AddData [1]]) (FifoLinux_init 0)"
  let ?s = "replicate 6 (Worker Ok) @ [AddData [7]] @ replicate 12 (Worker Ok)"
  let ?c' = "FifoLinux_exec (replicate 5 (Worker Ok) @ [AddData []]) (FifoLinux_init 0)"
  let ?s' = "[AddData []] @ replicate 9 (Worker Ok) @ [AddData []]"
  have h1: "idle_pc (run_at ?c)" by code_simp
  have h2: "run_at ?c' = L68" by code_simp
  have h3: "fifo_packet ?c' = Some []" by code_simp
  have h4: "submits_only [] ?s'" by code_simp
  have h5: "effects (FifoLinux_exec (replicate 6 (Worker Ok)) (add_data [] ?c)) = [Sleep, Sleep]"
    by code_simp
  have h6: "fifo_packet (FifoLinux_exec (replicate 6 (Worker Ok)) (add_data [] ?c)) = Some []"
    by code_simp
  note t = empty_frame_is_no_frame [where c = ?c and sched = ?s and c' = ?c' and r = Ok
      and sched' = ?s' and lt = 0]
  from t h1 have 1: "effects (FifoLinux_exec ?s (add_data [] ?c))
      = effects (FifoLinux_exec ?s (?c\<lparr>fifo_packet := None\<rparr>))"
    by blast
  from t h2 h3 have "FifoLinux_run_step Ok ?c' = ?c'\<lparr>run_at := L81\<rparr>"
    by blast
  then have 2: "run_at (FifoLinux_run_step Ok ?c') = L81"
    by simp
  from t h4 have 3: "filter is_pipe_io (effects (FifoLinux_exec ?s' (FifoLinux_init 0))) = []"
    by blast
  from h1 1 h5 h6 h2 2 h4 3 show ?thesis
    by blast
qed

end
